theory Spec2Isabelle
  imports Complex_Main "HOL-Library.Sublist"
begin

section \<open>Strings as the program uses them\<close>

text \<open>
  A JavaScript string is modelled as a \<^typ>\<open>string\<close> whose characters are read as the
  code points U+0000 to U+00FF, one \<^typ>\<open>char\<close> each. On that range
  \<open>String.prototype.toLowerCase\<close> maps A to Z and the Latin-1 capitals (U+00C0 to U+00DE
  without the multiplication sign U+00D7) to the letter 32 places up, and
  \<open>String.prototype.trim\<close> strips TAB, LF, VT, FF, CR, SPACE and NBSP.
\<close>

definition toLowerChar :: "char \<Rightarrow> char" where
  "toLowerChar c =
     (let n = (of_char c :: nat) in
      if (65 \<le> n \<and> n \<le> 90) \<or> (192 \<le> n \<and> n \<le> 222 \<and> n \<noteq> 215)
      then char_of (n + 32) else c)"

definition toLowerCase :: "string \<Rightarrow> string" where
  "toLowerCase s = map toLowerChar s"

definition isWhiteSpace :: "char \<Rightarrow> bool" where
  "isWhiteSpace c =
     (let n = (of_char c :: nat) in (9 \<le> n \<and> n \<le> 13) \<or> n = 32 \<or> n = 160)"

definition trim :: "string \<Rightarrow> string" where
  "trim s = rev (dropWhile isWhiteSpace (rev (dropWhile isWhiteSpace s)))"

text \<open>\<open>haystack.includes(needle)\<close>: the needle occurs as a contiguous run.\<close>

fun includesStr :: "string \<Rightarrow> string \<Rightarrow> bool" where
  "includesStr [] needle = (needle = [])"
| "includesStr (c # cs) needle = (prefix needle (c # cs) \<or> includesStr cs needle)"

text \<open>\<open>s.startsWith(p)\<close>.\<close>

definition startsWith :: "string \<Rightarrow> string \<Rightarrow> bool" where
  "startsWith s p = prefix p s"

text \<open>
  \<open>s.split(re)\<close> for a regular expression that matches one character of a class
  (\<open>splitOne\<close>, as in \<open>/[,\n|]/\<close>) or a maximal run of characters of a class
  (\<open>splitRuns\<close>, as in \<open>/[^a-z0-9]+/\<close>). Both return the pieces between the matches,
  empty pieces included, and a single empty piece for the empty string.
\<close>

fun splitOne :: "(char \<Rightarrow> bool) \<Rightarrow> string \<Rightarrow> string \<Rightarrow> string list" where
  "splitOne sep cur [] = [cur]"
| "splitOne sep cur (c # cs) =
     (if sep c then cur # splitOne sep [] cs else splitOne sep (cur @ [c]) cs)"

function splitRuns :: "(char \<Rightarrow> bool) \<Rightarrow> string \<Rightarrow> string \<Rightarrow> string list" where
  "splitRuns sep cur [] = [cur]"
| "splitRuns sep cur (c # cs) =
     (if sep c then cur # splitRuns sep [] (dropWhile sep cs)
      else splitRuns sep (cur @ [c]) cs)"
  by pat_completeness auto
termination
  by (relation "measure (\<lambda>(sep, cur, s). length s)")
     (auto simp: le_imp_less_Suc length_dropWhile_le)

text \<open>\<open>xs.join(sep)\<close>.\<close>

fun join :: "string \<Rightarrow> string list \<Rightarrow> string" where
  "join sep [] = []"
| "join sep [x] = x"
| "join sep (x # y # ys) = x @ sep @ join sep (y # ys)"

section \<open>The list codec (\<open>lib/list-codec\<close>)\<close>

definition isListSeparator :: "char \<Rightarrow> bool" where
  "isListSeparator c = (c = CHR '','' \<or> c = CHR 0x0A \<or> c = CHR ''|'')"

definition parseList :: "string \<Rightarrow> string list" where
  "parseList v =
     (if v = [] then []
      else filter (\<lambda>e. e \<noteq> []) (map trim (splitOne isListSeparator [] v)))"

text \<open>
  \<open>parseUniqueList\<close> keeps the first entry of each lower-cased key; \<open>seen\<close> is the
  set of keys met so far.
\<close>

fun uniqueLoop :: "string list \<Rightarrow> string list \<Rightarrow> string list" where
  "uniqueLoop seen [] = []"
| "uniqueLoop seen (e # es) =
     (let key = toLowerCase e in
      if key \<in> set seen then uniqueLoop seen es
      else e # uniqueLoop (key # seen) es)"

definition parseUniqueList :: "string \<Rightarrow> string list" where
  "parseUniqueList v = uniqueLoop [] (parseList v)"

definition encodeList :: "string list \<Rightarrow> string" where
  "encodeList vs = join '', '' (filter (\<lambda>e. e \<noteq> []) (map trim vs))"

definition normalizeToken :: "string \<Rightarrow> string" where
  "normalizeToken v = toLowerCase (trim v)"

section \<open>The scoring engine (\<open>lib/application-scoring\<close>)\<close>

text \<open>
  Times are milliseconds since the epoch (\<open>Date.getTime()\<close>), integers. The other
  numeric fields of the input (\<open>meritFit\<close>, \<open>profileCompleteness\<close>,
  \<open>recentApplicationCount\<close>, \<open>priorFraudEventsForIp\<close>) have the type \<open>number\<close> and
  nothing restricts them to integers: each is a double, modelled as the rational it
  denotes (a rational that no double denotes stands for no input of the program).
  \<open>NaN\<close> and the infinities are not values of the model. As a count they select
  the branches that some finite value selects (every comparison with \<open>NaN\<close> is false, and
  \<open>Math.min(24, Infinity)\<close> is 24); as \<open>meritFit\<close> or \<open>profileCompleteness\<close> they make
  \<open>autoRankScore\<close> 0. The match explanation, a formatted sentence built from values
  modelled here, is left out of the result.
\<close>

subsection \<open>Arithmetic on doubles\<close>

text \<open>
  A finite double is an integer of magnitude below \<open>2 ^ 53\<close> times a power of two, the
  power no smaller than \<open>2 ^ -1074\<close>. An arithmetic operation of the program returns the
  double nearest to the exact result, the one with the even integer when two are equally
  near. \<open>binaryExponent x\<close> is the \<open>e\<close> with \<open>2 ^ e \<le> \<bar>x\<bar> < 2 ^ (e + 1)\<close>, found from
  the number of binary digits of the integer part of \<open>\<bar>x\<bar>\<close> or of its inverse. No
  operation of the scoring engine on finite numbers reaches the largest double: the
  product with 6 is only used under \<open>Math.min(24, \<dots>)\<close>, and the ranking formula
  scales its two unbounded inputs by 0.52 and 0.12.
\<close>

function bitLength :: "int \<Rightarrow> nat" where
  "bitLength n = (if n \<le> 0 then 0 else Suc (bitLength (n div 2)))"
  by pat_completeness auto

termination
  by (relation "measure nat") auto

declare bitLength.simps [simp del]

definition pow2 :: "int \<Rightarrow> rat" where
  "pow2 q = (if 0 \<le> q then 2 ^ nat q else 1 / 2 ^ nat (- q))"

definition binaryExponent :: "rat \<Rightarrow> int" where
  "binaryExponent x =
     (if 1 \<le> \<bar>x\<bar> then int (bitLength \<lfloor>\<bar>x\<bar>\<rfloor>) - 1
      else - int (bitLength (\<lceil>1 / \<bar>x\<bar>\<rceil> - 1)))"

definition roundHalfEven :: "rat \<Rightarrow> int" where
  "roundHalfEven x =
     (let f = \<lfloor>x\<rfloor>; r = x - of_int f
      in if r < 1 / 2 then f else if 1 / 2 < r then f + 1 else if even f then f else f + 1)"

definition toDouble :: "rat \<Rightarrow> rat" where
  "toDouble x =
     (if x = 0 then 0
      else let q = max (binaryExponent x - 52) (- 1074)
           in of_int (roundHalfEven (x / pow2 q)) * pow2 q)"

definition plus_double :: "rat \<Rightarrow> rat \<Rightarrow> rat" where
  "plus_double a b = toDouble (a + b)"

definition minus_double :: "rat \<Rightarrow> rat \<Rightarrow> rat" where
  "minus_double a b = toDouble (a - b)"

definition times_double :: "rat \<Rightarrow> rat \<Rightarrow> rat" where
  "times_double a b = toDouble (a * b)"

definition divide_double :: "rat \<Rightarrow> rat \<Rightarrow> rat" where
  "divide_double a b = toDouble (a / b)"

subsection \<open>The types of the engine\<close>

record ScreenerAnswer =
  question :: string
  answer :: string

record ScoringJob =
  meritFit :: rat
  requiredScreeners :: string
  preferredScreeners :: string
  requiredSkills :: string
  preferredSkills :: string
  title :: string
  company :: string

record ScoringUser =
  profileSkills :: string
  profileCompleteness :: rat
  createdAt :: int
  email :: string
  isFlagged :: bool

record ScoringInput =
  job :: ScoringJob
  user :: ScoringUser
  answers :: "ScreenerAnswer list"
  recentApplicationCount :: rat
  priorFraudEventsForIp :: rat
  now :: "int option"

record ApplicationScoringResult =
  requiredPassed :: bool
  requiredScore :: nat
  preferredScore :: nat
  autoRankScore :: int
  missingSkills :: "string list"
  profileFixSuggestions :: "string list"
  submittedAnswers :: string
  riskScore :: int
  riskFlags :: "string list"
  needsManualReview :: bool
  blockForAbuse :: bool

definition isTokenChar :: "char \<Rightarrow> bool" where
  "isTokenChar c =
     (let n = (of_char c :: nat) in (97 \<le> n \<and> n \<le> 122) \<or> (48 \<le> n \<and> n \<le> 57))"

definition tokenize :: "string \<Rightarrow> string list" where
  "tokenize v =
     filter (\<lambda>token. 3 \<le> length token)
       (map trim (splitRuns (\<lambda>c. \<not> isTokenChar c) [] (toLowerCase v)))"

definition answerMatchesPrompt :: "string \<Rightarrow> ScreenerAnswer list \<Rightarrow> bool" where
  "answerMatchesPrompt prompt as =
     (let tokens = take 8 (tokenize prompt) in
      if tokens = [] then False
      else list_ex (\<lambda>entry.
             let a = normalizeToken (answer entry) in
             if a = [] then False
             else if a = ''yes'' \<or> startsWith a ''yes '' then True
             else list_ex (\<lambda>token. includesStr a token) tokens) as)"

definition extractSkillsFromAnswers :: "ScreenerAnswer list \<Rightarrow> string list" where
  "extractSkillsFromAnswers as =
     (let skillSeeds =
        filter (\<lambda>token. 4 \<le> length token)
          (concat (map (\<lambda>entry. tokenize (question entry @ '' '' @ answer entry)) as))
      in parseUniqueList (join '', '' skillSeeds))"

subsection \<open>Scores\<close>

text \<open>
  \<open>Math.round\<close> returns the nearest integer, the larger one of two equally near; it is
  exact on a double. Every value of the model is finite.
\<close>

definition mathRound :: "rat \<Rightarrow> int" where
  "mathRound v = \<lfloor>v + 1 / 2\<rfloor>"

definition clampScore :: "rat \<Rightarrow> int" where
  "clampScore v = max 0 (min 100 (mathRound v))"

text \<open>The screener loop: one point for every prompt that some answer matches.\<close>

definition screenerScore :: "string list \<Rightarrow> ScreenerAnswer list \<Rightarrow> nat" where
  "screenerScore screeners as =
     foldl (\<lambda>score screener. if answerMatchesPrompt screener as then score + 1 else score)
       0 screeners"

text \<open>
  One risk rule: when the condition holds, push the flag and add the points
  (\<open>riskScore += points\<close>, an addition of doubles). The state is the pair of \<open>riskFlags\<close>
  and \<open>riskScore\<close>.
\<close>

definition riskRule :: "bool \<Rightarrow> string \<Rightarrow> rat \<Rightarrow> string list \<times> rat \<Rightarrow> string list \<times> rat" where
  "riskRule cond flag points acc =
     (if cond then (fst acc @ [flag], plus_double (snd acc) points) else acc)"

text \<open>
  The age of the account in hours is kept exact: for whole milliseconds the two
  comparisons of the age, with 1 and with 0.17, come out as they do on the doubles (the
  double of 612000 ms in hours is the double of 0.17).
\<close>

definition accountAgeHours :: "int \<Rightarrow> int \<Rightarrow> rat" where
  "accountAgeHours nowMs createdMs = of_int (nowMs - createdMs) / (1000 * 60 * 60)"

text \<open>
  The risk rules in the order of the source (the innermost application is the first
  rule), in three groups: the rules on the number of recent applications, the rules on
  the age of the account, and the rules on the history (fraud events of the address, a
  flagged user, missing answers). The state that a group returns is the pair of
  \<open>riskFlags\<close> and \<open>riskScore\<close> at that point of the source. \<open>nowMs\<close> is the
  evaluation time and \<open>requiredCount\<close> the number of required screeners.
\<close>

definition velocityRules :: "ScoringInput \<Rightarrow> string list \<times> rat" where
  "velocityRules input =
     riskRule (12 \<le> recentApplicationCount input) ''extreme_application_velocity'' 20
     (riskRule (6 \<le> recentApplicationCount input) ''high_application_velocity'' 22
       ([], 0))"

definition accountAgeRules ::
  "ScoringInput \<Rightarrow> int \<Rightarrow> string list \<times> rat \<Rightarrow> string list \<times> rat" where
  "accountAgeRules input nowMs acc =
     (let age = accountAgeHours nowMs (createdAt (user input)) in
      riskRule (age < 17 / 100) ''very_new_account'' 18
      (riskRule (age < 1) ''new_account'' 18 acc))"

definition historyRules ::
  "ScoringInput \<Rightarrow> nat \<Rightarrow> string list \<times> rat \<Rightarrow> string list \<times> rat" where
  "historyRules input requiredCount acc =
     riskRule (answers input = [] \<and> 0 < requiredCount) ''missing_required_answers'' 10
     (riskRule (isFlagged (user input)) ''user_previously_flagged'' 26
     (riskRule (0 < priorFraudEventsForIp input) ''ip_history_flagged''
         (min 24 (times_double (priorFraudEventsForIp input) 6))
       acc))"

text \<open>
  All the rules: the result is the pair of \<open>riskFlags\<close> and the \<open>riskScore\<close> that the
  source then tests and, rounded and clamped, returns.
\<close>

definition riskAssessment :: "ScoringInput \<Rightarrow> int \<Rightarrow> nat \<Rightarrow> string list \<times> rat" where
  "riskAssessment input nowMs requiredCount =
     historyRules input requiredCount (accountAgeRules input nowMs (velocityRules input))"

definition fixSuggestions :: "rat \<Rightarrow> string list \<Rightarrow> string list \<Rightarrow> bool \<Rightarrow> string list" where
  "fixSuggestions completeness missing missingPreferred screenerGap =
     (let suggestions =
        (if completeness < 80 then [''Increase profile completeness to at least 80%.''] else []) @
        (if missing \<noteq> []
         then [''Add evidence for required skills: '' @ join '', '' missing @ ''.''] else []) @
        (if missingPreferred \<noteq> []
         then [''Strengthen preferred skills coverage: '' @
               join '', '' (take 3 missingPreferred) @ ''.''] else []) @
        (if screenerGap
         then [''Provide stronger examples for required screener prompts.''] else [])
      in if suggestions = []
         then [''Profile is strong. Add fresh outcome metrics to stay competitive.'']
         else suggestions)"

text \<open>
  \<open>clock\<close> is what \<open>new Date()\<close> returns when the input carries no \<open>now\<close>. The
  ranking formula is evaluated from left to right, every operation on doubles; the
  constants 0.52, 0.12, 0.24 and 0.6 are the doubles nearest to them. \<open>needsManualReview\<close>
  and \<open>blockForAbuse\<close> test the sum of the rule points itself, \<open>riskScore\<close> is that sum
  rounded and clamped.
\<close>

definition evaluateApplication :: "int \<Rightarrow> ScoringInput \<Rightarrow> ApplicationScoringResult" where
  "evaluateApplication clock input =
     (let nowMs = (case now input of Some t \<Rightarrow> t | None \<Rightarrow> clock);
          requiredScreenerList = parseUniqueList (requiredScreeners (job input));
          preferredScreenerList = parseUniqueList (preferredScreeners (job input));
          requiredSkillList = parseUniqueList (requiredSkills (job input));
          preferredSkillList = parseUniqueList (preferredSkills (job input));
          answerSkills = extractSkillsFromAnswers (answers input);
          profileSkillList = parseUniqueList (profileSkills (user input));
          candidateSkills = parseUniqueList (join '', '' (profileSkillList @ answerSkills));
          candidateSkillIndex = set (map normalizeToken candidateSkills);
          reqScore = screenerScore requiredScreenerList (answers input);
          prefScore = screenerScore preferredScreenerList (answers input);
          missing = filter (\<lambda>skill. normalizeToken skill \<notin> candidateSkillIndex) requiredSkillList;
          missingPreferred =
            filter (\<lambda>skill. normalizeToken skill \<notin> candidateSkillIndex) preferredSkillList;
          reqPassed = (length requiredScreenerList = 0 \<or> length requiredScreenerList \<le> reqScore);
          risk = riskAssessment input nowMs (length requiredScreenerList);
          flags = fst risk;
          rawRisk = snd risk;
          requiredRatio =
            (if 0 < length requiredScreenerList
             then divide_double (of_nat reqScore) (of_nat (length requiredScreenerList)) else 1);
          preferredRatio =
            (if 0 < length preferredScreenerList
             then divide_double (of_nat prefScore) (of_nat (length preferredScreenerList))
             else toDouble (6 / 10));
          rawRank =
            minus_double
              (minus_double
                (minus_double
                  (plus_double
                    (plus_double
                      (plus_double
                        (times_double (meritFit (job input)) (toDouble (52 / 100)))
                        (times_double requiredRatio 28))
                      (times_double preferredRatio 12))
                    (times_double (profileCompleteness (user input)) (toDouble (12 / 100))))
                  (times_double (of_nat (length missing)) 7))
                (times_double (of_nat (length missingPreferred)) 2))
              (times_double rawRisk (toDouble (24 / 100)))
      in \<lparr> requiredPassed = reqPassed,
           requiredScore = reqScore,
           preferredScore = prefScore,
           autoRankScore = clampScore rawRank,
           missingSkills = missing,
           profileFixSuggestions =
             fixSuggestions (profileCompleteness (user input)) missing missingPreferred
               (reqScore < length requiredScreenerList),
           submittedAnswers =
             encodeList (map (\<lambda>entry. question entry @ '': '' @ take 220 (answer entry))
               (answers input)),
           riskScore = clampScore rawRisk,
           riskFlags = flags,
           needsManualReview = (45 \<le> rawRisk \<or> \<not> reqPassed),
           blockForAbuse = (72 \<le> rawRisk) \<rparr>)"

subsection \<open>Screener matching as the specification words it\<close>


section \<open>Interviewer load and rebalancing (\<open>lib/pipeline-automation\<close>)\<close>

text \<open>
  The part of \<open>getPipelineAutomationSnapshot\<close> that groups the upcoming interviews by
  owner, grades each owner's load and suggests moves. \<open>jobs\<close> and \<open>upcomingInterviews\<close>
  are the results of the two queries (the interviews with a time not before now, by
  ascending time). A JavaScript \<open>Map\<close> is an association list in insertion order;
  \<open>Array.prototype.sort\<close> is stable, as is \<open>sort_key\<close>. Counts are integers and the
  mean load is an exact rational. The stage recommendations and the sentence stored as a
  suggestion's \<open>reason\<close> are not modelled.
\<close>

record Interview =
  interviewId :: nat
  person :: string
  owner :: string
  time :: int

















section \<open>Submitting an application (\<open>POST /api/applications\<close>)\<close>

text \<open>
  The handler runs against the store as \<open>ensureSeedData\<close> leaves it (seeding runs once
  per process and writes no Application when one exists). What the handler reads from
  outside is in the request: whether the rate limiter allowed the call, the session, the
  parsed body, the client identifier and the user agent header. \<open>clock k\<close> is the k-th
  reading of the clock during the request: 0 and 1 for the two counting windows, 2 for the
  scoring, 3 and 4 for the creation times that the database fills in for a fraud event and
  an Application. The store is a record of tables, each a list of rows; a new Application
  gets the next key. The two counts that the handler passes to the scoring engine are
  results of \<open>count\<close> queries, integers, as are the columns \<open>meritFit\<close> and
  \<open>profileCompleteness\<close>. Formatted sentences (the match explanation, a fraud event's
  detail) are left out of the rows, and the rate limit headers out of the responses.
\<close>

record JobRow =
  jobId :: int
  jobMeritFit :: int
  jobRequiredScreeners :: string
  jobPreferredScreeners :: string
  jobRequiredSkills :: string
  jobPreferredSkills :: string
  jobTitle :: string
  jobCompany :: string

record UserRow =
  userId :: string
  userEmail :: string
  userCreatedAt :: int
  userProfileSkills :: string
  userProfileCompleteness :: int
  userIsFlagged :: bool

record ApplicationRow =
  applicationId :: int
  applicationJobId :: int
  applicationUserId :: string
  status :: string
  appliedAt :: int
  screenerRequiredPassed :: bool
  screenerRequiredScore :: nat
  screenerPreferredScore :: nat
  storedAutoRankScore :: int
  storedMissingSkills :: string
  storedProfileFixSuggestions :: string
  storedSubmittedAnswers :: string
  storedRiskScore :: int
  storedRiskFlags :: string
  storedNeedsManualReview :: bool
  applicationSourceIp :: string
  applicationUserAgent :: "string option"

record FraudEventRow =
  flow :: string
  fraudUserId :: string
  fraudSourceIp :: string
  severity :: string
  decision :: string
  fraudCreatedAt :: int

record Store =
  jobs :: "JobRow list"
  users :: "UserRow list"
  applications :: "ApplicationRow list"
  fraudEvents :: "FraudEventRow list"

text \<open>The \<open>Application\<close> that \<open>mapApplication\<close> returns to the caller.\<close>

record Application =
  viewId :: int
  viewJobId :: int
  viewStatus :: string
  viewAppliedAt :: int
  viewScreenerRequiredPassed :: bool
  viewScreenerRequiredScore :: nat
  viewScreenerPreferredScore :: nat
  viewAutoRankScore :: int
  viewMissingSkills :: "string list"
  viewProfileFixSuggestions :: "string list"
  viewRiskScore :: int
  viewRiskFlags :: "string list"
  viewNeedsManualReview :: bool

definition mapApplication :: "ApplicationRow \<Rightarrow> Application" where
  "mapApplication r =
     \<lparr> viewId = applicationId r,
       viewJobId = applicationJobId r,
       viewStatus = status r,
       viewAppliedAt = appliedAt r,
       viewScreenerRequiredPassed = screenerRequiredPassed r,
       viewScreenerRequiredScore = screenerRequiredScore r,
       viewScreenerPreferredScore = screenerPreferredScore r,
       viewAutoRankScore = storedAutoRankScore r,
       viewMissingSkills = parseUniqueList (storedMissingSkills r),
       viewProfileFixSuggestions = parseUniqueList (storedProfileFixSuggestions r),
       viewRiskScore = storedRiskScore r,
       viewRiskFlags = parseUniqueList (storedRiskFlags r),
       viewNeedsManualReview = storedNeedsManualReview r \<rparr>"

text \<open>
  An entry of \<open>body.answers\<close>: not an object, or an object whose \<open>question\<close> and
  \<open>answer\<close> are strings or something else. \<open>None\<close> for \<open>body.answers\<close> itself is a
  value that is not an array.
\<close>

datatype RawAnswer = NotAnObject | AnswerObject "string option" "string option"

fun parseScreenerEntry :: "RawAnswer \<Rightarrow> ScreenerAnswer option" where
  "parseScreenerEntry NotAnObject = None"
| "parseScreenerEntry (AnswerObject q a) =
     (let question = (case q of Some s \<Rightarrow> trim s | None \<Rightarrow> []);
          answer = (case a of Some s \<Rightarrow> trim s | None \<Rightarrow> [])
      in if question = [] \<or> answer = [] then None
         else Some \<lparr> question = question, answer = answer \<rparr>)"

definition parseScreenerAnswers :: "RawAnswer list option \<Rightarrow> ScreenerAnswer list" where
  "parseScreenerAnswers v =
     (case v of None \<Rightarrow> [] | Some entries \<Rightarrow> List.map_filter parseScreenerEntry entries)"

record SessionUser =
  sessionUserId :: string
  role :: string

record ApplicationRequest =
  throttleAllowed :: bool
  session :: "SessionUser option"
  bodyJobId :: "int option"
  bodyAnswers :: "RawAnswer list option"
  clientIdentifier :: string
  userAgentHeader :: "string option"

datatype Response = JsonError nat string | JsonApplication nat Application

definition scoringInputFor ::
  "JobRow \<Rightarrow> UserRow \<Rightarrow> ScreenerAnswer list \<Rightarrow> int \<Rightarrow> int \<Rightarrow> ScoringInput" where
  "scoringInputFor j u as recentCount fraudCount =
     \<lparr> job = \<lparr> meritFit = of_int (jobMeritFit j),
               requiredScreeners = jobRequiredScreeners j,
               preferredScreeners = jobPreferredScreeners j,
               requiredSkills = jobRequiredSkills j,
               preferredSkills = jobPreferredSkills j,
               title = jobTitle j,
               company = jobCompany j \<rparr>,
       user = \<lparr> profileSkills = userProfileSkills u,
                profileCompleteness = of_int (userProfileCompleteness u),
                createdAt = userCreatedAt u,
                email = userEmail u,
                isFlagged = userIsFlagged u \<rparr>,
       answers = as,
       recentApplicationCount = of_int recentCount,
       priorFraudEventsForIp = of_int fraudCount,
       now = None \<rparr>"

definition recentApplicationCountOf :: "Store \<Rightarrow> string \<Rightarrow> int \<Rightarrow> int" where
  "recentApplicationCountOf store uid nowMs =
     int (length (filter (\<lambda>a. applicationUserId a = uid \<and> nowMs - 15 * 60 * 1000 \<le> appliedAt a)
       (applications store)))"

definition priorFraudEventsOf :: "Store \<Rightarrow> string \<Rightarrow> int \<Rightarrow> int" where
  "priorFraudEventsOf store sourceIp nowMs =
     int (length (filter (\<lambda>e. fraudSourceIp e = sourceIp \<and>
                              nowMs - 24 * 60 * 60 * 1000 \<le> fraudCreatedAt e \<and>
                              (decision e = ''manual_review'' \<or> decision e = ''block''))
       (fraudEvents store)))"

text \<open>The next value of the autoincrement key of the Application table.\<close>

definition nextApplicationId :: "ApplicationRow list \<Rightarrow> int" where
  "nextApplicationId rows = foldl max 0 (map applicationId rows) + 1"

definition POST :: "(nat \<Rightarrow> int) \<Rightarrow> ApplicationRequest \<Rightarrow> Store \<Rightarrow> Response \<times> Store" where
  "POST clock req store =
     (if \<not> throttleAllowed req
      then (JsonError 429 ''Too many application requests. Try again shortly.'', store)
      else case session req of
        None \<Rightarrow> (JsonError 401 ''Authentication required'', store)
      | Some sessionUser \<Rightarrow>
        if role sessionUser \<noteq> ''CANDIDATE'' \<and> role sessionUser \<noteq> ''ADMIN''
        then (JsonError 403 ''Candidate access required'', store)
        else case bodyJobId req of
          None \<Rightarrow> (JsonError 400 ''jobId is required'', store)
        | Some jid \<Rightarrow>
          (case find (\<lambda>j. jobId j = jid) (jobs store) of
             None \<Rightarrow> (JsonError 404 ''Job not found'', store)
           | Some j \<Rightarrow>
             (case find (\<lambda>u. userId u = sessionUserId sessionUser) (users store) of
                None \<Rightarrow> (JsonError 404 ''User not found'', store)
              | Some u \<Rightarrow>
                (case find (\<lambda>a. applicationUserId a = sessionUserId sessionUser \<and>
                                  applicationJobId a = jid) (applications store) of
                   Some existing \<Rightarrow> (JsonApplication 200 (mapApplication existing), store)
                 | None \<Rightarrow>
                   (let sourceIp = clientIdentifier req;
                        userAgent = map_option (take 400) (userAgentHeader req);
                        as = parseScreenerAnswers (bodyAnswers req);
                        recentCount =
                          recentApplicationCountOf store (sessionUserId sessionUser) (clock 0);
                        fraudCount = priorFraudEventsOf store sourceIp (clock 1);
                        scoring =
                          evaluateApplication (clock 2) (scoringInputFor j u as recentCount fraudCount);
                        fraudDecision =
                          (if blockForAbuse scoring then ''block''
                           else if needsManualReview scoring then ''manual_review''
                           else ''allow'');
                        store1 =
                          (if riskFlags scoring \<noteq> []
                           then store\<lparr> fraudEvents := fraudEvents store @
                                  [\<lparr> flow = ''application_create'',
                                     fraudUserId = sessionUserId sessionUser,
                                     fraudSourceIp = sourceIp,
                                     severity =
                                       (if 72 \<le> riskScore scoring then ''high''
                                        else if 45 \<le> riskScore scoring then ''medium''
                                        else ''low''),
                                     decision = fraudDecision,
                                     fraudCreatedAt = clock 3 \<rparr>] \<rparr>
                           else store)
                    in if blockForAbuse scoring
                       then (JsonError 429
                               ''Application blocked due to abuse risk. Contact support if this is a mistake.'',
                             store1)
                       else
                         (let record =
                            \<lparr> applicationId = nextApplicationId (applications store1),
                              applicationJobId = jid,
                              applicationUserId = sessionUserId sessionUser,
                              status = ''Applied'',
                              appliedAt = clock 4,
                              screenerRequiredPassed = requiredPassed scoring,
                              screenerRequiredScore = requiredScore scoring,
                              screenerPreferredScore = preferredScore scoring,
                              storedAutoRankScore = autoRankScore scoring,
                              storedMissingSkills = encodeList (missingSkills scoring),
                              storedProfileFixSuggestions =
                                encodeList (profileFixSuggestions scoring),
                              storedSubmittedAnswers = submittedAnswers scoring,
                              storedRiskScore = riskScore scoring,
                              storedRiskFlags = encodeList (riskFlags scoring),
                              storedNeedsManualReview = needsManualReview scoring,
                              applicationSourceIp = sourceIp,
                              applicationUserAgent = userAgent \<rparr>
                          in (JsonApplication 201 (mapApplication record),
                              store1\<lparr> applications := applications store1 @ [record] \<rparr>)))))))"

section \<open>Alert delivery (\<open>lib/alert-delivery\<close>)\<close>

text \<open>
  The store holds the saved searches, the job alerts and the delivery log, each a list of
  rows; \<open>update\<close> and \<open>updateMany\<close> rewrite the rows whose id is named and \<open>create\<close>
  appends a row. A \<open>Date\<close> is its epoch milliseconds and, for the run time, its local hour.
  The two channel providers are outside the program: \<open>provider\<close> tells for each attempt
  (an email or a push, for one alert or for a batch of a search) whether it was accepted.
  Subjects, payloads, recipients and provider names are left out of the log rows, and the
  outbound webhook event, whose failure is caught and logged, is left out altogether.
\<close>

record DateValue =
  getTime :: int
  getHours :: int

record JobAlert =
  alertId :: int
  alertSavedSearchId :: int
  emailSentAt :: "int option"
  inAppSentAt :: "int option"
  pushSentAt :: "int option"

record SavedSearch =
  searchId :: int
  searchUserId :: string
  digestCadence :: string
  digestHour :: int
  lastDigestAt :: "int option"
  emailEnabled :: bool
  inAppEnabled :: bool
  pushEnabled :: bool
  pushDeferred :: bool

record AlertDeliveryLog =
  logUserId :: string
  logAlertId :: "int option"
  logSavedSearchId :: int
  logChannel :: string
  logKind :: string
  logAccepted :: bool
  logDeliveredAt :: int

record AlertStore =
  savedSearches :: "SavedSearch list"
  jobAlerts :: "JobAlert list"
  alertDeliveryLogs :: "AlertDeliveryLog list"

text \<open>A saved search together with its alerts that are unsent on some channel.\<close>

record SavedSearchWithPendingAlerts =
  search :: SavedSearch
  alerts :: "JobAlert list"

datatype DigestCadence = CadenceInstant | CadenceDaily | CadenceWeekly

datatype Attempt =
    EmailInstantAttempt int int
  | EmailDigestAttempt int "int list"
  | PushInstantAttempt int int
  | PushDigestAttempt int "int list"

definition normalizeCadence :: "string \<Rightarrow> DigestCadence" where
  "normalizeCadence v =
     (if v = ''instant'' then CadenceInstant
      else if v = ''weekly'' then CadenceWeekly
      else CadenceDaily)"

definition cadenceIntervalHours :: "DigestCadence \<Rightarrow> int" where
  "cadenceIntervalHours cadence = (if cadence = CadenceWeekly then 7 * 24 else 24)"

definition isDigestDue :: "DigestCadence \<Rightarrow> int \<Rightarrow> int option \<Rightarrow> DateValue \<Rightarrow> bool" where
  "isDigestDue cadence hour lastDigest runAt =
     (if getHours runAt < hour then False
      else case lastDigest of
        None \<Rightarrow> True
      | Some lastMs \<Rightarrow>
          (let elapsedHours = (of_int (getTime runAt - lastMs) / (1000 * 60 * 60) :: rat)
           in of_int (cadenceIntervalHours cadence) \<le> elapsedHours))"

text \<open>
  \<open>fetchPendingSearches(userId)\<close>. The \<open>where\<close> clause selects the searches of the
  user (of every user when \<open>userId\<close> is missing or empty) that have a channel enabled;
  the \<open>include\<close> clause attaches to each its alerts that are unsent on some channel.
\<close>

definition selectedSearch :: "string option \<Rightarrow> SavedSearch \<Rightarrow> bool" where
  "selectedSearch uid s \<longleftrightarrow>
     (case uid of None \<Rightarrow> True | Some u \<Rightarrow> u = [] \<or> searchUserId s = u) \<and>
     (emailEnabled s \<or> inAppEnabled s \<or> pushEnabled s)"

definition withPendingAlerts :: "AlertStore \<Rightarrow> SavedSearch \<Rightarrow> SavedSearchWithPendingAlerts" where
  "withPendingAlerts store s =
     \<lparr> search = s,
       alerts = filter (\<lambda>a. alertSavedSearchId a = searchId s \<and>
                              (emailSentAt a = None \<or> inAppSentAt a = None \<or>
                               pushSentAt a = None))
                  (jobAlerts store) \<rparr>"

definition fetchPendingSearches :: "string option \<Rightarrow> AlertStore \<Rightarrow> SavedSearchWithPendingAlerts list" where
  "fetchPendingSearches uid store =
     map (withPendingAlerts store) (filter (selectedSearch uid) (savedSearches store))"

record ChannelCounts =
  emailAlerts :: "JobAlert list"
  inAppAlerts :: "JobAlert list"
  pushAlerts :: "JobAlert list"
  pendingUniqueCount :: nat

definition channelPendingCounts :: "SavedSearchWithPendingAlerts \<Rightarrow> ChannelCounts" where
  "channelPendingCounts ps =
     (let email = (if emailEnabled (search ps)
                   then filter (\<lambda>a. emailSentAt a = None) (alerts ps) else []);
          inApp = (if inAppEnabled (search ps)
                   then filter (\<lambda>a. inAppSentAt a = None) (alerts ps) else []);
          push = (if pushEnabled (search ps)
                  then filter (\<lambda>a. pushSentAt a = None) (alerts ps) else [])
      in \<lparr> emailAlerts = email,
           inAppAlerts = inApp,
           pushAlerts = push,
           pendingUniqueCount =
             length (remdups (map alertId email @ map alertId inApp @ map alertId push)) \<rparr>)"

subsection \<open>Writes to the store\<close>

definition createLog :: "AlertDeliveryLog \<Rightarrow> AlertStore \<Rightarrow> AlertStore" where
  "createLog row store = store\<lparr> alertDeliveryLogs := alertDeliveryLogs store @ [row] \<rparr>"

definition markEmailSent :: "int list \<Rightarrow> int \<Rightarrow> AlertStore \<Rightarrow> AlertStore" where
  "markEmailSent ids t store =
     store\<lparr> jobAlerts :=
       map (\<lambda>a. if alertId a \<in> set ids then a\<lparr> emailSentAt := Some t \<rparr> else a)
         (jobAlerts store) \<rparr>"

definition markInAppSent :: "int list \<Rightarrow> int \<Rightarrow> AlertStore \<Rightarrow> AlertStore" where
  "markInAppSent ids t store =
     store\<lparr> jobAlerts :=
       map (\<lambda>a. if alertId a \<in> set ids then a\<lparr> inAppSentAt := Some t \<rparr> else a)
         (jobAlerts store) \<rparr>"

definition markPushSent :: "int list \<Rightarrow> int \<Rightarrow> AlertStore \<Rightarrow> AlertStore" where
  "markPushSent ids t store =
     store\<lparr> jobAlerts :=
       map (\<lambda>a. if alertId a \<in> set ids then a\<lparr> pushSentAt := Some t \<rparr> else a)
         (jobAlerts store) \<rparr>"

definition setLastDigestAt :: "int \<Rightarrow> int \<Rightarrow> AlertStore \<Rightarrow> AlertStore" where
  "setLastDigestAt sid t store =
     store\<lparr> savedSearches :=
       map (\<lambda>s. if searchId s = sid then s\<lparr> lastDigestAt := Some t \<rparr> else s)
         (savedSearches store) \<rparr>"

subsection \<open>In-app and push delivery\<close>

definition createInternalDeliveryLogs ::
  "SavedSearchWithPendingAlerts \<Rightarrow> JobAlert list \<Rightarrow> DateValue \<Rightarrow> string \<Rightarrow> AlertStore \<Rightarrow> AlertStore \<times> nat" where
  "createInternalDeliveryLogs ps as runAt kind store =
     (let rows = map (\<lambda>alert.
            \<lparr> logUserId = searchUserId (search ps),
              logAlertId = Some (alertId alert),
              logSavedSearchId = searchId (search ps),
              logChannel = ''in_app'',
              logKind = kind,
              logAccepted = True,
              logDeliveredAt = getTime runAt \<rparr>) as
      in if rows = [] then (store, 0)
         else (store\<lparr> alertDeliveryLogs := alertDeliveryLogs store @ rows \<rparr>, length rows))"

text \<open>
  The result of a push delivery. \<open>deliverPushInstantPerAlert\<close> returns the three
  counters only; its \<open>accepted\<close> is a filler that nothing reads.
\<close>

record PushResult =
  accepted :: bool
  deliveredAlerts :: nat
  failedAttempts :: nat
  resultLogsCreated :: nat

definition deliverPushDigest ::
  "(Attempt \<Rightarrow> bool) \<Rightarrow> SavedSearchWithPendingAlerts \<Rightarrow> JobAlert list \<Rightarrow> DateValue \<Rightarrow>
   AlertStore \<Rightarrow> AlertStore \<times> PushResult" where
  "deliverPushDigest provider ps as runAt store =
     (if as = []
      then (store, \<lparr> accepted = True, deliveredAlerts = 0, failedAttempts = 0, resultLogsCreated = 0 \<rparr>)
      else
        (let ok = provider (PushDigestAttempt (searchId (search ps)) (map alertId as));
             store1 = createLog
               \<lparr> logUserId = searchUserId (search ps),
                 logAlertId = None,
                 logSavedSearchId = searchId (search ps),
                 logChannel = ''push'',
                 logKind = ''digest'',
                 logAccepted = ok,
                 logDeliveredAt = getTime runAt \<rparr> store;
             store2 = (if ok then markPushSent (map alertId as) (getTime runAt) store1
                       else store1)
         in (store2,
             \<lparr> accepted = ok,
               deliveredAlerts = (if ok then length as else 0),
               failedAttempts = (if ok then 0 else 1),
               resultLogsCreated = 1 \<rparr>)))"

definition pushInstantStep ::
  "(Attempt \<Rightarrow> bool) \<Rightarrow> SavedSearchWithPendingAlerts \<Rightarrow> DateValue \<Rightarrow>
   AlertStore \<times> PushResult \<Rightarrow> JobAlert \<Rightarrow> AlertStore \<times> PushResult" where
  "pushInstantStep provider ps runAt state alert =
     (let store = fst state;
          result = snd state;
          ok = provider (PushInstantAttempt (searchId (search ps)) (alertId alert));
          store1 = createLog
            \<lparr> logUserId = searchUserId (search ps),
              logAlertId = Some (alertId alert),
              logSavedSearchId = searchId (search ps),
              logChannel = ''push'',
              logKind = ''instant'',
              logAccepted = ok,
              logDeliveredAt = getTime runAt \<rparr> store;
          result1 = result\<lparr> resultLogsCreated := resultLogsCreated result + 1 \<rparr>
      in if ok
         then (markPushSent [alertId alert] (getTime runAt) store1,
               result1\<lparr> deliveredAlerts := deliveredAlerts result1 + 1 \<rparr>)
         else (store1, result1\<lparr> failedAttempts := failedAttempts result1 + 1 \<rparr>))"

definition deliverPushInstantPerAlert ::
  "(Attempt \<Rightarrow> bool) \<Rightarrow> SavedSearchWithPendingAlerts \<Rightarrow> JobAlert list \<Rightarrow> DateValue \<Rightarrow>
   AlertStore \<Rightarrow> AlertStore \<times> PushResult" where
  "deliverPushInstantPerAlert provider ps as runAt store =
     foldl (pushInstantStep provider ps runAt)
       (store, \<lparr> accepted = True, deliveredAlerts = 0, failedAttempts = 0, resultLogsCreated = 0 \<rparr>) as"

subsection \<open>The delivery run\<close>

record AlertDeliveryRunSummary =
  searchesScanned :: nat
  attemptedDeliveries :: nat
  alertsDelivered :: nat
  instantAlertsDelivered :: nat
  digestAlertsDelivered :: nat
  failedDeliveries :: nat
  digestRuns :: nat
  logsCreated :: nat
  waitingDigestSearches :: nat
  emailChannelDelivered :: nat
  inAppChannelDelivered :: nat
  pushChannelDelivered :: nat

type_synonym runState = "AlertStore \<times> AlertDeliveryRunSummary"

text \<open>One round of the loop over the pending email alerts of an instant search.\<close>

definition emailInstantStep ::
  "(Attempt \<Rightarrow> bool) \<Rightarrow> SavedSearchWithPendingAlerts \<Rightarrow> DateValue \<Rightarrow>
   runState \<Rightarrow> JobAlert \<Rightarrow> runState" where
  "emailInstantStep provider ps runAt state alert =
     (let store = fst state;
          summary = (snd state)\<lparr> attemptedDeliveries := attemptedDeliveries (snd state) + 1 \<rparr>;
          ok = provider (EmailInstantAttempt (searchId (search ps)) (alertId alert));
          store1 = createLog
            \<lparr> logUserId = searchUserId (search ps),
              logAlertId = Some (alertId alert),
              logSavedSearchId = searchId (search ps),
              logChannel = ''email'',
              logKind = ''instant'',
              logAccepted = ok,
              logDeliveredAt = getTime runAt \<rparr> store;
          summary1 = summary\<lparr> logsCreated := logsCreated summary + 1 \<rparr>
      in if ok
         then (markEmailSent [alertId alert] (getTime runAt) store1,
               summary1\<lparr> alertsDelivered := alertsDelivered summary1 + 1,
                         instantAlertsDelivered := instantAlertsDelivered summary1 + 1,
                         emailChannelDelivered := emailChannelDelivered summary1 + 1 \<rparr>)
         else (store1, summary1\<lparr> failedDeliveries := failedDeliveries summary1 + 1 \<rparr>))"

text \<open>The in-app block, for an instant search (one attempt per alert).\<close>

definition inAppInstantBlock ::
  "SavedSearchWithPendingAlerts \<Rightarrow> JobAlert list \<Rightarrow> DateValue \<Rightarrow> runState \<Rightarrow> runState" where
  "inAppInstantBlock ps as runAt state =
     (if as = [] then state
      else
        (let summary = (snd state)\<lparr> attemptedDeliveries :=
                          attemptedDeliveries (snd state) + length as \<rparr>;
             created = createInternalDeliveryLogs ps as runAt ''instant'' (fst state);
             summary1 = summary\<lparr> logsCreated := logsCreated summary + snd created,
                                 inAppChannelDelivered := inAppChannelDelivered summary + length as,
                                 alertsDelivered := alertsDelivered summary + length as,
                                 instantAlertsDelivered :=
                                   instantAlertsDelivered summary + length as \<rparr>
         in (markInAppSent (map alertId as) (getTime runAt) (fst created), summary1)))"

text \<open>The push block of an instant search: one deferred batch, or one push per alert.\<close>

definition pushInstantBlock ::
  "(Attempt \<Rightarrow> bool) \<Rightarrow> SavedSearchWithPendingAlerts \<Rightarrow> JobAlert list \<Rightarrow> DateValue \<Rightarrow>
   runState \<Rightarrow> runState" where
  "pushInstantBlock provider ps as runAt state =
     (if as = [] then state
      else if pushDeferred (search ps)
      then
        (let summary = (snd state)\<lparr> attemptedDeliveries := attemptedDeliveries (snd state) + 1 \<rparr>;
             delivered = deliverPushDigest provider ps as runAt (fst state);
             result = snd delivered
         in (fst delivered,
             summary\<lparr> logsCreated := logsCreated summary + resultLogsCreated result,
                      failedDeliveries := failedDeliveries summary + failedAttempts result,
                      pushChannelDelivered := pushChannelDelivered summary + deliveredAlerts result,
                      alertsDelivered := alertsDelivered summary + deliveredAlerts result,
                      digestAlertsDelivered :=
                        digestAlertsDelivered summary + deliveredAlerts result \<rparr>))
      else
        (let summary = (snd state)\<lparr> attemptedDeliveries :=
                          attemptedDeliveries (snd state) + length as \<rparr>;
             delivered = deliverPushInstantPerAlert provider ps as runAt (fst state);
             result = snd delivered
         in (fst delivered,
             summary\<lparr> logsCreated := logsCreated summary + resultLogsCreated result,
                      failedDeliveries := failedDeliveries summary + failedAttempts result,
                      pushChannelDelivered := pushChannelDelivered summary + deliveredAlerts result,
                      alertsDelivered := alertsDelivered summary + deliveredAlerts result,
                      instantAlertsDelivered :=
                        instantAlertsDelivered summary + deliveredAlerts result \<rparr>)))"

text \<open>The three blocks of a due digest: each sends all pending alerts as one batch.\<close>

definition emailDigestBlock ::
  "(Attempt \<Rightarrow> bool) \<Rightarrow> SavedSearchWithPendingAlerts \<Rightarrow> JobAlert list \<Rightarrow> DateValue \<Rightarrow>
   runState \<Rightarrow> runState" where
  "emailDigestBlock provider ps as runAt state =
     (if as = [] then state
      else
        (let summary = (snd state)\<lparr> attemptedDeliveries := attemptedDeliveries (snd state) + 1 \<rparr>;
             ok = provider (EmailDigestAttempt (searchId (search ps)) (map alertId as));
             store1 = createLog
               \<lparr> logUserId = searchUserId (search ps),
                 logAlertId = None,
                 logSavedSearchId = searchId (search ps),
                 logChannel = ''email'',
                 logKind = ''digest'',
                 logAccepted = ok,
                 logDeliveredAt = getTime runAt \<rparr> (fst state);
             summary1 = summary\<lparr> logsCreated := logsCreated summary + 1 \<rparr>
         in if ok
            then (markEmailSent (map alertId as) (getTime runAt) store1,
                  summary1\<lparr> alertsDelivered := alertsDelivered summary1 + length as,
                            digestAlertsDelivered := digestAlertsDelivered summary1 + length as,
                            emailChannelDelivered := emailChannelDelivered summary1 + length as,
                            digestRuns := digestRuns summary1 + 1 \<rparr>)
            else (store1, summary1\<lparr> failedDeliveries := failedDeliveries summary1 + 1 \<rparr>)))"

definition inAppDigestBlock ::
  "SavedSearchWithPendingAlerts \<Rightarrow> JobAlert list \<Rightarrow> DateValue \<Rightarrow> runState \<Rightarrow> runState" where
  "inAppDigestBlock ps as runAt state =
     (if as = [] then state
      else
        (let summary = (snd state)\<lparr> attemptedDeliveries := attemptedDeliveries (snd state) + 1 \<rparr>;
             created = createInternalDeliveryLogs ps as runAt ''digest'' (fst state);
             summary1 = summary\<lparr> logsCreated := logsCreated summary + snd created,
                                 inAppChannelDelivered := inAppChannelDelivered summary + length as,
                                 alertsDelivered := alertsDelivered summary + length as,
                                 digestAlertsDelivered :=
                                   digestAlertsDelivered summary + length as \<rparr>
         in (markInAppSent (map alertId as) (getTime runAt) (fst created), summary1)))"

definition pushDigestBlock ::
  "(Attempt \<Rightarrow> bool) \<Rightarrow> SavedSearchWithPendingAlerts \<Rightarrow> JobAlert list \<Rightarrow> DateValue \<Rightarrow>
   runState \<Rightarrow> runState" where
  "pushDigestBlock provider ps as runAt state =
     (if as = [] then state
      else
        (let summary = (snd state)\<lparr> attemptedDeliveries := attemptedDeliveries (snd state) + 1 \<rparr>;
             delivered = deliverPushDigest provider ps as runAt (fst state);
             result = snd delivered
         in (fst delivered,
             summary\<lparr> logsCreated := logsCreated summary + resultLogsCreated result,
                      failedDeliveries := failedDeliveries summary + failedAttempts result,
                      pushChannelDelivered := pushChannelDelivered summary + deliveredAlerts result,
                      alertsDelivered := alertsDelivered summary + deliveredAlerts result,
                      digestAlertsDelivered :=
                        digestAlertsDelivered summary + deliveredAlerts result \<rparr>)))"

text \<open>
  The body of the loop over the fetched searches. The pending lists come from the rows as
  they were fetched before the loop started.
\<close>

definition processSearch ::
  "DateValue \<Rightarrow> (Attempt \<Rightarrow> bool) \<Rightarrow> runState \<Rightarrow> SavedSearchWithPendingAlerts \<Rightarrow> runState" where
  "processSearch runAt provider state ps =
     (let store = fst state;
          summary = (snd state)\<lparr> searchesScanned := searchesScanned (snd state) + 1 \<rparr>;
          channelCounts = channelPendingCounts ps
      in if pendingUniqueCount channelCounts = 0 then (store, summary)
         else
           (let cadence = normalizeCadence (digestCadence (search ps));
                isInstant = (cadence = CadenceInstant);
                isDueDigest = (\<not> isInstant \<and>
                  isDigestDue cadence (digestHour (search ps)) (lastDigestAt (search ps)) runAt)
            in if \<not> isInstant \<and> \<not> isDueDigest
               then (store, summary\<lparr> waitingDigestSearches := waitingDigestSearches summary + 1 \<rparr>)
               else if isInstant
               then
                 pushInstantBlock provider ps (pushAlerts channelCounts) runAt
                   (inAppInstantBlock ps (inAppAlerts channelCounts) runAt
                      (foldl (emailInstantStep provider ps runAt) (store, summary)
                         (emailAlerts channelCounts)))
               else
                 (let done =
                    pushDigestBlock provider ps (pushAlerts channelCounts) runAt
                      (inAppDigestBlock ps (inAppAlerts channelCounts) runAt
                         (emailDigestBlock provider ps (emailAlerts channelCounts) runAt
                            (store, summary)))
                  in (setLastDigestAt (searchId (search ps)) (getTime runAt) (fst done),
                      snd done))))"

definition emptySummary :: AlertDeliveryRunSummary where
  "emptySummary =
     \<lparr> searchesScanned = 0, attemptedDeliveries = 0, alertsDelivered = 0,
       instantAlertsDelivered = 0, digestAlertsDelivered = 0, failedDeliveries = 0,
       digestRuns = 0, logsCreated = 0, waitingDigestSearches = 0,
       emailChannelDelivered = 0, inAppChannelDelivered = 0, pushChannelDelivered = 0 \<rparr>"

definition runAlertDeliveryJob ::
  "string option \<Rightarrow> DateValue \<Rightarrow> (Attempt \<Rightarrow> bool) \<Rightarrow> AlertStore \<Rightarrow> runState" where
  "runAlertDeliveryJob uid runAt provider store =
     foldl (processSearch runAt provider) (store, emptySummary) (fetchPendingSearches uid store)"

subsection \<open>The delivery preview\<close>




section \<open>What a run does with one fetched search\<close>

text \<open>
  The definitions of this section are not part of the program. They name, for one fetched
  search, the branch that \<open>runAlertDeliveryJob\<close> takes and what that branch attempts,
  marks and logs, so that the lemmas about the loop can be stated.
\<close>

datatype SearchMode = NothingPending | WaitingDigest | InstantDelivery | DueDigest

definition searchMode :: "DateValue \<Rightarrow> SavedSearchWithPendingAlerts \<Rightarrow> SearchMode" where
  "searchMode runAt ps =
     (if pendingUniqueCount (channelPendingCounts ps) = 0 then NothingPending
      else if normalizeCadence (digestCadence (search ps)) = CadenceInstant then InstantDelivery
      else if isDigestDue (normalizeCadence (digestCadence (search ps)))
                (digestHour (search ps)) (lastDigestAt (search ps)) runAt
      then DueDigest
      else WaitingDigest)"

definition attemptsFor :: "DateValue \<Rightarrow> SavedSearchWithPendingAlerts \<Rightarrow> nat" where
  "attemptsFor runAt ps =
     (let cc = channelPendingCounts ps in
      case searchMode runAt ps of
        NothingPending \<Rightarrow> 0
      | WaitingDigest \<Rightarrow> 0
      | InstantDelivery \<Rightarrow>
          length (emailAlerts cc) + length (inAppAlerts cc) +
          (if pushAlerts cc = [] then 0
           else if pushDeferred (search ps) then 1
           else length (pushAlerts cc))
      | DueDigest \<Rightarrow>
          (if emailAlerts cc = [] then 0 else 1) + (if inAppAlerts cc = [] then 0 else 1) +
          (if pushAlerts cc = [] then 0 else 1))"

text \<open>The attempt that covers a pending alert, on the email and on the push channel.\<close>

definition emailAttemptFor :: "DateValue \<Rightarrow> SavedSearchWithPendingAlerts \<Rightarrow> JobAlert \<Rightarrow> Attempt" where
  "emailAttemptFor runAt ps a =
     (if searchMode runAt ps = InstantDelivery
      then EmailInstantAttempt (searchId (search ps)) (alertId a)
      else EmailDigestAttempt (searchId (search ps))
             (map alertId (emailAlerts (channelPendingCounts ps))))"

definition pushAttemptFor :: "DateValue \<Rightarrow> SavedSearchWithPendingAlerts \<Rightarrow> JobAlert \<Rightarrow> Attempt" where
  "pushAttemptFor runAt ps a =
     (if searchMode runAt ps = InstantDelivery \<and> \<not> pushDeferred (search ps)
      then PushInstantAttempt (searchId (search ps)) (alertId a)
      else PushDigestAttempt (searchId (search ps))
             (map alertId (pushAlerts (channelPendingCounts ps))))"

text \<open>The ids that processing the search marks as sent, per channel.\<close>

definition emailIdsMarked ::
  "(Attempt \<Rightarrow> bool) \<Rightarrow> DateValue \<Rightarrow> SavedSearchWithPendingAlerts \<Rightarrow> int list" where
  "emailIdsMarked provider runAt ps =
     (if searchMode runAt ps = InstantDelivery \<or> searchMode runAt ps = DueDigest
      then map alertId (filter (\<lambda>a. provider (emailAttemptFor runAt ps a))
             (emailAlerts (channelPendingCounts ps)))
      else [])"

definition inAppIdsMarked :: "DateValue \<Rightarrow> SavedSearchWithPendingAlerts \<Rightarrow> int list" where
  "inAppIdsMarked runAt ps =
     (if searchMode runAt ps = InstantDelivery \<or> searchMode runAt ps = DueDigest
      then map alertId (inAppAlerts (channelPendingCounts ps))
      else [])"

definition pushIdsMarked ::
  "(Attempt \<Rightarrow> bool) \<Rightarrow> DateValue \<Rightarrow> SavedSearchWithPendingAlerts \<Rightarrow> int list" where
  "pushIdsMarked provider runAt ps =
     (if searchMode runAt ps = InstantDelivery \<or> searchMode runAt ps = DueDigest
      then map alertId (filter (\<lambda>a. provider (pushAttemptFor runAt ps a))
             (pushAlerts (channelPendingCounts ps)))
      else [])"

text \<open>An alert after the ids in three lists have been marked sent at time \<open>t\<close>.\<close>

definition stamp :: "int list \<Rightarrow> int list \<Rightarrow> int list \<Rightarrow> int \<Rightarrow> JobAlert \<Rightarrow> JobAlert" where
  "stamp emailIds inAppIds pushIds t a =
     a\<lparr> emailSentAt := (if alertId a \<in> set emailIds then Some t else emailSentAt a),
        inAppSentAt := (if alertId a \<in> set inAppIds then Some t else inAppSentAt a),
        pushSentAt := (if alertId a \<in> set pushIds then Some t else pushSentAt a) \<rparr>"

text \<open>Rows of the store by their primary key.\<close>

definition alertById :: "AlertStore \<Rightarrow> int \<Rightarrow> JobAlert option" where
  "alertById store i = find (\<lambda>a. alertId a = i) (jobAlerts store)"

definition searchById :: "AlertStore \<Rightarrow> int \<Rightarrow> SavedSearch option" where
  "searchById store i = find (\<lambda>s. searchId s = i) (savedSearches store)"

text \<open>The primary keys of the two tables are unique.\<close>

definition uniqueKeys :: "AlertStore \<Rightarrow> bool" where
  "uniqueKeys store \<longleftrightarrow>
     distinct (map searchId (savedSearches store)) \<and> distinct (map alertId (jobAlerts store))"

text \<open>The log rows that processing the search appends, in order.\<close>

definition logRow ::
  "DateValue \<Rightarrow> SavedSearchWithPendingAlerts \<Rightarrow> int option \<Rightarrow> string \<Rightarrow> string \<Rightarrow> bool \<Rightarrow>
   AlertDeliveryLog" where
  "logRow runAt ps alert channel kind ok =
     \<lparr> logUserId = searchUserId (search ps),
       logAlertId = alert,
       logSavedSearchId = searchId (search ps),
       logChannel = channel,
       logKind = kind,
       logAccepted = ok,
       logDeliveredAt = getTime runAt \<rparr>"

definition logRowsFor ::
  "(Attempt \<Rightarrow> bool) \<Rightarrow> DateValue \<Rightarrow> SavedSearchWithPendingAlerts \<Rightarrow> AlertDeliveryLog list" where
  "logRowsFor provider runAt ps =
     (let cc = channelPendingCounts ps;
          sid = searchId (search ps);
          pushBatch =
            [logRow runAt ps None ''push'' ''digest''
               (provider (PushDigestAttempt sid (map alertId (pushAlerts cc))))]
      in case searchMode runAt ps of
        NothingPending \<Rightarrow> []
      | WaitingDigest \<Rightarrow> []
      | InstantDelivery \<Rightarrow>
          map (\<lambda>a. logRow runAt ps (Some (alertId a)) ''email'' ''instant''
                     (provider (EmailInstantAttempt sid (alertId a)))) (emailAlerts cc) @
          map (\<lambda>a. logRow runAt ps (Some (alertId a)) ''in_app'' ''instant'' True)
            (inAppAlerts cc) @
          (if pushAlerts cc = [] then []
           else if pushDeferred (search ps) then pushBatch
           else map (\<lambda>a. logRow runAt ps (Some (alertId a)) ''push'' ''instant''
                           (provider (PushInstantAttempt sid (alertId a)))) (pushAlerts cc))
      | DueDigest \<Rightarrow>
          (if emailAlerts cc = [] then []
           else [logRow runAt ps None ''email'' ''digest''
                   (provider (EmailDigestAttempt sid (map alertId (emailAlerts cc))))]) @
          map (\<lambda>a. logRow runAt ps (Some (alertId a)) ''in_app'' ''digest'' True)
            (inAppAlerts cc) @
          (if pushAlerts cc = [] then [] else pushBatch))"

text \<open>A saved search after the digests of the searches in a list of ids have run at \<open>t\<close>.\<close>

definition touched :: "int list \<Rightarrow> int \<Rightarrow> SavedSearch \<Rightarrow> SavedSearch" where
  "touched ids t s = (if searchId s \<in> set ids then s\<lparr> lastDigestAt := Some t \<rparr> else s)"

definition dueDigestIds :: "DateValue \<Rightarrow> SavedSearchWithPendingAlerts list \<Rightarrow> int list" where
  "dueDigestIds runAt pss =
     map (\<lambda>ps. searchId (search ps)) (filter (\<lambda>ps. searchMode runAt ps = DueDigest) pss)"

section \<open>Example inputs\<close>

text \<open>
  A flagged applicant with a two hour old account who has sent seven applications in the
  last quarter of an hour and answers the one required screener.
\<close>

definition flaggedApplicant :: ScoringInput where
  "flaggedApplicant =
     \<lparr> job = \<lparr> meritFit = 95, requiredScreeners = ''Do you know Golang?'',
               preferredScreeners = '''', requiredSkills = ''Golang'', preferredSkills = '''',
               title = ''Backend Engineer'', company = ''Faypath'' \<rparr>,
       user = \<lparr> profileSkills = ''Golang, SQL'', profileCompleteness = 50, createdAt = 0,
                email = ''a@faypath.dev'', isFlagged = True \<rparr>,
       answers = [\<lparr> question = ''Do you know Golang?'', answer = ''yes'' \<rparr>],
       recentApplicationCount = 7,
       priorFraudEventsForIp = 0,
       now = Some 7200000 \<rparr>"

text \<open>An applicant whose account is five minutes old and who has not applied before.\<close>

definition freshApplicant :: ScoringInput where
  "freshApplicant =
     \<lparr> job = \<lparr> meritFit = 80, requiredScreeners = '''', preferredScreeners = '''',
               requiredSkills = '''', preferredSkills = '''',
               title = ''Data Analyst'', company = ''Faypath'' \<rparr>,
       user = \<lparr> profileSkills = ''SQL'', profileCompleteness = 90, createdAt = 1000000,
                email = ''b@faypath.dev'', isFlagged = False \<rparr>,
       answers = [],
       recentApplicationCount = 0,
       priorFraudEventsForIp = 0,
       now = Some 1300000 \<rparr>"

text \<open>
  An applicant with an old account and six applications in the last quarter of an hour,
  for a job without screeners, scored with a count of fraud events of 3.75; and the same
  with the count 3.8, that is the double nearest to it.
\<close>

definition fractionalHistory :: ScoringInput where
  "fractionalHistory =
     \<lparr> job = \<lparr> meritFit = 80, requiredScreeners = '''', preferredScreeners = '''',
               requiredSkills = '''', preferredSkills = '''',
               title = ''Data Analyst'', company = ''Faypath'' \<rparr>,
       user = \<lparr> profileSkills = ''SQL'', profileCompleteness = 90, createdAt = 0,
                email = ''d@faypath.dev'', isFlagged = False \<rparr>,
       answers = [],
       recentApplicationCount = 6,
       priorFraudEventsForIp = 15 / 4,
       now = Some 7200000 \<rparr>"

definition fractionalHistory38 :: ScoringInput where
  "fractionalHistory38 = fractionalHistory\<lparr> priorFraudEventsForIp := toDouble (38 / 10) \<rparr>"


text \<open>
  A store with one job that has a required screener, a flagged user whose account was
  created at time 1000000, and no application yet; the same store after that user has
  applied; and the user's request for the job, sent without answers.
\<close>

definition golangJob :: JobRow where
  "golangJob =
     \<lparr> jobId = 7, jobMeritFit = 88, jobRequiredScreeners = ''Golang?'',
       jobPreferredScreeners = '''', jobRequiredSkills = '''', jobPreferredSkills = '''',
       jobTitle = ''Backend Engineer'', jobCompany = ''Faypath'' \<rparr>"

definition flaggedUser :: UserRow where
  "flaggedUser =
     \<lparr> userId = ''u1'', userEmail = ''c@faypath.dev'', userCreatedAt = 1000000,
       userProfileSkills = ''Golang'', userProfileCompleteness = 60, userIsFlagged = True \<rparr>"


definition emptyStore :: Store where
  "emptyStore =
     \<lparr> jobs = [golangJob], users = [flaggedUser], applications = [], fraudEvents = [] \<rparr>"


definition candidateRequest :: ApplicationRequest where
  "candidateRequest =
     \<lparr> throttleAllowed = True,
       session = Some \<lparr> sessionUserId = ''u1'', role = ''CANDIDATE'' \<rparr>,
       bodyJobId = Some 7,
       bodyAnswers = None,
       clientIdentifier = ''203.0.113.9'',
       userAgentHeader = None \<rparr>"

text \<open>
  A store with one daily digest search (email only, digest hour 9, never sent) that has two
  unsent alerts, and one with an instant search (in-app only) that has two unsent alerts.
  The run is at 10 o'clock local time.
\<close>

definition dailySearch :: SavedSearch where
  "dailySearch =
     \<lparr> searchId = 1, searchUserId = ''u1'', digestCadence = ''daily'', digestHour = 9,
       lastDigestAt = None, emailEnabled = True, inAppEnabled = False, pushEnabled = False,
       pushDeferred = False \<rparr>"

definition instantSearch :: SavedSearch where
  "instantSearch =
     \<lparr> searchId = 2, searchUserId = ''u2'', digestCadence = ''instant'', digestHour = 9,
       lastDigestAt = None, emailEnabled = False, inAppEnabled = True, pushEnabled = False,
       pushDeferred = False \<rparr>"

definition unsentAlert :: "int \<Rightarrow> int \<Rightarrow> JobAlert" where
  "unsentAlert aid sid =
     \<lparr> alertId = aid, alertSavedSearchId = sid, emailSentAt = None, inAppSentAt = None,
       pushSentAt = None \<rparr>"

definition digestStore :: AlertStore where
  "digestStore =
     \<lparr> savedSearches = [dailySearch],
       jobAlerts = [unsentAlert 11 1, unsentAlert 12 1],
       alertDeliveryLogs = [] \<rparr>"

definition instantStore :: AlertStore where
  "instantStore =
     \<lparr> savedSearches = [instantSearch],
       jobAlerts = [unsentAlert 21 2, unsentAlert 22 2],
       alertDeliveryLogs = [] \<rparr>"

definition tenOClock :: DateValue where
  "tenOClock = \<lparr> getTime = 1000000000, getHours = 10 \<rparr>"



definition elevenOClock :: DateValue where
  "elevenOClock = \<lparr> getTime = 1003600000, getHours = 11 \<rparr>"

section \<open>Properties of the arithmetic on doubles\<close>

text \<open>
  Integers of magnitude below \<open>2 ^ 53\<close> are doubles, so the arithmetic of the program is
  exact on them; and rounding never takes a number below such an integer that it is not
  below.
\<close>

lemma roundHalfEven_of_int: "roundHalfEven (of_int n) = n"
  by (simp add: roundHalfEven_def)

lemma floor_le_roundHalfEven: "\<lfloor>x\<rfloor> \<le> roundHalfEven x"
  by (simp add: roundHalfEven_def Let_def)

lemma bitLength_le: "n < 2 ^ m \<Longrightarrow> bitLength n \<le> m"
proof (induction m arbitrary: n)
  case 0
  then show ?case by (simp add: bitLength.simps)
next
  case (Suc m)
  show ?case
  proof (cases "n \<le> 0")
    case True
    then show ?thesis by (simp add: bitLength.simps)
  next
    case False
    from Suc.prems have "n div 2 < 2 ^ m" by simp
    then have "bitLength (n div 2) \<le> m" by (rule Suc.IH)
    with False show ?thesis by (simp add: bitLength.simps [of n])
  qed
qed

lemma bitLength_pos: "0 < n \<Longrightarrow> 0 < bitLength n"
  by (simp add: bitLength.simps [of n])

lemma bitLength_lower: "0 < n \<Longrightarrow> 2 ^ (bitLength n - 1) \<le> n"
proof (induction n rule: bitLength.induct)
  case (1 n)
  from \<open>0 < n\<close> have step: "bitLength n = Suc (bitLength (n div 2))"
    by (simp add: bitLength.simps [of n])
  show ?case
  proof (cases "0 < n div 2")
    case False
    then have "bitLength (n div 2) = 0" by (simp add: bitLength.simps)
    with step \<open>0 < n\<close> show ?thesis by simp
  next
    case True
    with 1 have ih: "2 ^ (bitLength (n div 2) - 1) \<le> n div 2" by simp
    from True have "0 < bitLength (n div 2)" by (rule bitLength_pos)
    then have "(2 :: int) ^ bitLength (n div 2) = 2 * 2 ^ (bitLength (n div 2) - 1)"
      by (cases "bitLength (n div 2)") simp_all
    with ih have "(2 :: int) ^ bitLength (n div 2) \<le> 2 * (n div 2)" by simp
    also have "\<dots> \<le> n" by simp
    finally show ?thesis by (simp add: step)
  qed
qed

lemma pow2_nonneg: "0 \<le> q \<Longrightarrow> pow2 q = 2 ^ nat q"
  by (simp add: pow2_def)

lemma pow2_neg: "q \<le> 0 \<Longrightarrow> pow2 q = 1 / 2 ^ nat (- q)"
  by (simp add: pow2_def)

lemma pow2_pos: "0 < pow2 q"
  by (simp add: pow2_def)

lemma toDouble_of_int:
  assumes "\<bar>k\<bar> < 2 ^ 53"
  shows "toDouble (of_int k) = of_int k"
proof (cases "k = 0")
  case True
  then show ?thesis by (simp add: toDouble_def)
next
  case False
  define b where "b = bitLength \<bar>k\<bar>"
  from False have pos: "0 < \<bar>k\<bar>" by simp
  then have b1: "0 < b" unfolding b_def by (rule bitLength_pos)
  from assms have b53: "b \<le> 53" unfolding b_def by (rule bitLength_le)
  from pos have "1 \<le> \<bar>k\<bar>" by simp
  then have "(1 :: rat) \<le> of_int \<bar>k\<bar>" by (simp only: of_int_1_le_iff)
  then have abs1: "(1 :: rat) \<le> \<bar>of_int k\<bar>" by simp
  have fl: "\<lfloor>\<bar>of_int k :: rat\<bar>\<rfloor> = \<bar>k\<bar>"
    by (metis floor_of_int of_int_abs)
  have e: "binaryExponent (of_int k) = int b - 1"
    using abs1 by (simp add: binaryExponent_def fl b_def)
  define q where "q = max (binaryExponent (of_int k) - 52) (- 1074)"
  have q: "q = int b - 53" using b1 by (simp add: q_def e)
  then have qle: "q \<le> 0" using b53 by simp
  have p: "pow2 q = 1 / 2 ^ nat (- q)" using qle by (rule pow2_neg)
  have "(of_int k :: rat) / pow2 q = of_int (k * 2 ^ nat (- q))"
    by (simp add: p)
  then have r: "roundHalfEven (of_int k / pow2 q) = k * 2 ^ nat (- q)"
    by (simp only: roundHalfEven_of_int)
  have "toDouble (of_int k) = of_int (roundHalfEven (of_int k / pow2 q)) * pow2 q"
    using False by (simp add: toDouble_def q_def Let_def)
  also have "\<dots> = of_int (k * 2 ^ nat (- q)) * pow2 q"
    by (simp only: r)
  also have "\<dots> = of_int k"
    by (simp add: p)
  finally show ?thesis .
qed

lemma toDouble_ge_int:
  assumes "of_int m \<le> x" and "0 < m" and "m < 2 ^ 53"
  shows "of_int m \<le> toDouble x"
proof -
  have x1: "1 \<le> x" using assms(1,2)
    by (smt (verit) of_int_1_le_iff order_trans)
  then have absx: "\<bar>x\<bar> = x" and x0: "x \<noteq> 0" by simp_all
  define n where "n = \<lfloor>x\<rfloor>"
  have nm: "m \<le> n" unfolding n_def using assms(1) by (simp add: le_floor_iff)
  with assms(2) have npos: "0 < n" by simp
  define b where "b = bitLength n"
  have b1: "0 < b" unfolding b_def using npos by (rule bitLength_pos)
  have low: "2 ^ (b - 1) \<le> n" unfolding b_def using npos by (rule bitLength_lower)
  have e: "binaryExponent x = int b - 1"
    using x1 by (simp add: binaryExponent_def absx n_def b_def)
  define q where "q = max (binaryExponent x - 52) (- 1074)"
  have q: "q = int b - 53" using b1 by (simp add: q_def e)
  have td: "toDouble x = of_int (roundHalfEven (x / pow2 q)) * pow2 q"
    using x0 by (simp add: toDouble_def q_def Let_def)
  show ?thesis
  proof (cases "b \<le> 53")
    case True
    then have qle: "q \<le> 0" using q by simp
    have p: "pow2 q = 1 / 2 ^ nat (- q)" using qle by (rule pow2_neg)
    have "(of_int (m * 2 ^ nat (- q)) :: rat) \<le> x / pow2 q"
      using assms(1) by (simp add: p)
    then have "m * 2 ^ nat (- q) \<le> \<lfloor>x / pow2 q\<rfloor>"
      by (simp only: le_floor_iff)
    also have "\<dots> \<le> roundHalfEven (x / pow2 q)"
      by (rule floor_le_roundHalfEven)
    finally have "(of_int (m * 2 ^ nat (- q)) :: rat) \<le> of_int (roundHalfEven (x / pow2 q))"
      by (simp only: of_int_le_iff)
    then have "(of_int (m * 2 ^ nat (- q)) :: rat) * pow2 q
        \<le> of_int (roundHalfEven (x / pow2 q)) * pow2 q"
      using pow2_pos [of q] by (simp only: mult_le_cancel_right_pos)
    moreover have "(of_int (m * 2 ^ nat (- q)) :: rat) * pow2 q = of_int m"
      by (simp add: p)
    ultimately show ?thesis by (simp only: td)
  next
    case False
    then have qpos: "0 \<le> q" and nq: "nat q = b - 53" using q by simp_all
    have p: "pow2 q = 2 ^ (b - 53)" using qpos nq by (simp add: pow2_nonneg)
    have split: "b - 1 = 52 + (b - 53)" using False by simp
    have "(2 :: rat) ^ (b - 1) \<le> of_int n"
      using low by (metis of_int_le_iff of_int_numeral of_int_power)
    also have "\<dots> \<le> x" unfolding n_def by simp
    finally have "(2 :: rat) ^ (b - 1) \<le> x" .
    then have xlow: "(2 :: rat) ^ 52 * 2 ^ (b - 53) \<le> x"
      by (simp only: split power_add)
    then have "(of_int (2 ^ 52) :: rat) \<le> x / pow2 q"
      by (simp add: p pos_le_divide_eq)
    then have "2 ^ 52 \<le> \<lfloor>x / pow2 q\<rfloor>"
      by (simp only: le_floor_iff)
    also have "\<dots> \<le> roundHalfEven (x / pow2 q)"
      by (rule floor_le_roundHalfEven)
    finally have "(of_int (2 ^ 52) :: rat) \<le> of_int (roundHalfEven (x / pow2 q))"
      by (simp only: of_int_le_iff)
    then have "(of_int (2 ^ 52) :: rat) * pow2 q \<le> toDouble x"
      using pow2_pos [of q] by (simp only: td mult_le_cancel_right_pos)
    moreover have "(2 :: rat) ^ 1 \<le> 2 ^ (b - 53)"
      using False by (intro power_increasing) simp_all
    then have "(of_int (2 ^ 52) :: rat) * 2 \<le> of_int (2 ^ 52) * pow2 q"
      by (simp add: p)
    moreover have "(of_int m :: rat) \<le> of_int (2 ^ 53)"
      using assms(3) by (simp only: of_int_le_iff)
    then have "(of_int m :: rat) \<le> of_int (2 ^ 52) * 2"
      by simp
    ultimately show ?thesis
      by linarith
  qed
qed

section \<open>Properties of the scoring engine\<close>

lemma plus_double_of_int:
  "\<bar>a + b\<bar> < 2 ^ 53 \<Longrightarrow> plus_double (of_int a) (of_int b) = of_int (a + b)"
  using toDouble_of_int [of "a + b"] by (simp add: plus_double_def)

lemma ip_history_points:
  assumes "0 < p"
  shows "min 24 (times_double (of_int p) 6) = of_int (min 24 (p * 6))"
proof (cases "p < 4")
  case True
  then have "\<bar>p * 6\<bar> < 2 ^ 53" using assms by simp
  then have "toDouble (of_int (p * 6)) = of_int (p * 6)" by (rule toDouble_of_int)
  then have "times_double (of_int p) 6 = of_int (p * 6)"
    by (simp add: times_double_def)
  then show ?thesis by simp
next
  case False
  then have "(of_int 24 :: rat) \<le> of_int (p * 6)" by simp
  then have "(of_int 24 :: rat) \<le> toDouble (of_int (p * 6))"
    by (rule toDouble_ge_int) simp_all
  then have "24 \<le> times_double (of_int p) 6"
    by (simp add: times_double_def)
  with False show ?thesis by simp
qed

lemma mathRound_of_int: "mathRound (of_int r) = r"
  unfolding mathRound_def by linarith

lemma clampScore_of_int: "clampScore (of_int r) = max 0 (min 100 r)"
  by (simp add: clampScore_def mathRound_of_int)

lemma clampScore_ge_45: "45 \<le> clampScore v \<longleftrightarrow> 89 / 2 \<le> v"
proof -
  have "45 \<le> clampScore v \<longleftrightarrow> 45 \<le> \<lfloor>v + 1 / 2\<rfloor>"
    unfolding clampScore_def mathRound_def by linarith
  also have "\<dots> \<longleftrightarrow> of_int 45 \<le> v + 1 / 2"
    by (simp only: le_floor_iff)
  also have "\<dots> \<longleftrightarrow> 89 / 2 \<le> v"
    by auto
  finally show ?thesis .
qed

lemma riskScore_evaluateApplication:
  "riskScore (evaluateApplication clock input) =
     clampScore (snd (riskAssessment input
       (case now input of Some t \<Rightarrow> t | None \<Rightarrow> clock)
       (length (parseUniqueList (requiredScreeners (job input))))))"
  by (simp add: evaluateApplication_def Let_def)

lemma needsManualReview_evaluateApplication:
  "needsManualReview (evaluateApplication clock input) \<longleftrightarrow>
     45 \<le> snd (riskAssessment input
       (case now input of Some t \<Rightarrow> t | None \<Rightarrow> clock)
       (length (parseUniqueList (requiredScreeners (job input))))) \<or>
     \<not> requiredPassed (evaluateApplication clock input)"
  by (simp add: evaluateApplication_def Let_def)

lemma blockForAbuse_evaluateApplication:
  "blockForAbuse (evaluateApplication clock input) \<longleftrightarrow>
     72 \<le> snd (riskAssessment input
       (case now input of Some t \<Rightarrow> t | None \<Rightarrow> clock)
       (length (parseUniqueList (requiredScreeners (job input)))))"
  by (simp add: evaluateApplication_def Let_def)

lemma riskFlags_evaluateApplication:
  "riskFlags (evaluateApplication clock input) =
     fst (riskAssessment input
       (case now input of Some t \<Rightarrow> t | None \<Rightarrow> clock)
       (length (parseUniqueList (requiredScreeners (job input)))))"
  by (simp add: evaluateApplication_def Let_def)

lemma requiredPassed_evaluateApplication:
  "requiredPassed (evaluateApplication clock input) =
     (parseUniqueList (requiredScreeners (job input)) = [] \<or>
      length (parseUniqueList (requiredScreeners (job input)))
        \<le> screenerScore (parseUniqueList (requiredScreeners (job input))) (answers input))"
  by (simp add: evaluateApplication_def Let_def)

subsection \<open>The risk rules in closed form\<close>

lemma accountAge_lt_hour: "accountAgeHours n c < 1 \<longleftrightarrow> n - c < 3600000"
proof -
  have "accountAgeHours n c < 1 \<longleftrightarrow> (of_int (n - c) :: rat) < of_int 3600000"
    by (simp add: accountAgeHours_def field_simps)
  also have "\<dots> \<longleftrightarrow> n - c < 3600000"
    by (simp only: of_int_less_iff)
  finally show ?thesis .
qed

lemma accountAge_lt_very_new: "accountAgeHours n c < 17 / 100 \<longleftrightarrow> n - c < 612000"
proof -
  have "accountAgeHours n c < 17 / 100 \<longleftrightarrow>
          (of_int ((n - c) * 100) :: rat) < of_int 61200000"
    by (simp add: accountAgeHours_def field_simps)
  also have "\<dots> \<longleftrightarrow> (n - c) * 100 < 61200000"
    by (simp only: of_int_less_iff)
  also have "\<dots> \<longleftrightarrow> n - c < 612000"
    by auto
  finally show ?thesis .
qed

lemma accountAge_lt_very_new_scaled: "accountAgeHours n c * 100 < 17 \<longleftrightarrow> n - c < 612000"
  using accountAge_lt_very_new [of n c] by simp

lemma set_fst_riskRule:
  "set (fst (riskRule cond flag points acc)) = set (fst acc) \<union> (if cond then {flag} else {})"
  by (simp add: riskRule_def)

text \<open>A rule that adds whole points to whole points adds them exactly.\<close>

lemma snd_riskRule_int:
  assumes "snd acc = of_int a" and "0 \<le> a" and "a \<le> 200"
    and "cond \<longrightarrow> points = of_int pts \<and> 0 \<le> pts \<and> pts \<le> 50"
  shows "snd (riskRule cond flag points acc) = of_int (a + (if cond then pts else 0))"
proof (cases cond)
  case False
  with assms(1) show ?thesis by (simp add: riskRule_def)
next
  case True
  with assms(2-4) have "\<bar>a + pts\<bar> < 2 ^ 53" by simp
  then have "plus_double (of_int a) (of_int pts) = of_int (a + pts)"
    by (rule plus_double_of_int)
  with True assms(1) assms(4) show ?thesis by (simp add: riskRule_def)
qed

lemma velocityRules_points:
  "snd (velocityRules input) =
     of_int ((if 6 \<le> recentApplicationCount input then 22 else 0) +
             (if 12 \<le> recentApplicationCount input then 20 else 0))"
proof -
  define c1 where "c1 \<longleftrightarrow> 6 \<le> recentApplicationCount input"
  define c2 where "c2 \<longleftrightarrow> 12 \<le> recentApplicationCount input"
  define s1 where "s1 = riskRule c1 ''high_application_velocity'' 22 ([], 0)"
  define a1 where "a1 = (if c1 then 22 else 0 :: int)"
  have r1: "snd s1 = of_int a1"
    using snd_riskRule_int [of "([], 0)" 0 c1 22 22 "''high_application_velocity''"]
    by (simp add: s1_def a1_def)
  have b1: "0 \<le> a1" "a1 \<le> 22" by (simp_all add: a1_def)
  have "snd (riskRule c2 ''extreme_application_velocity'' 20 s1) =
      of_int (a1 + (if c2 then 20 else 0))"
    using snd_riskRule_int [of s1 a1 c2 20 20 "''extreme_application_velocity''"] r1 b1
    by simp
  then show ?thesis
    by (simp only: velocityRules_def s1_def a1_def c1_def c2_def)
qed

lemma accountAgeRules_points:
  assumes "snd acc = of_int a" and "0 \<le> a" and "a \<le> 100"
  shows "snd (accountAgeRules input nowMs acc) =
     of_int (a + (if nowMs - createdAt (user input) < 3600000 then 18 else 0) +
                 (if nowMs - createdAt (user input) < 612000 then 18 else 0))"
proof -
  define c3 where "c3 \<longleftrightarrow> nowMs - createdAt (user input) < 3600000"
  define c4 where "c4 \<longleftrightarrow> nowMs - createdAt (user input) < 612000"
  define s3 where "s3 = riskRule c3 ''new_account'' 18 acc"
  define a3 where "a3 = a + (if c3 then 18 else 0)"
  have r3: "snd s3 = of_int a3"
    using snd_riskRule_int [of acc a c3 18 18 "''new_account''"] assms
    by (simp add: s3_def a3_def)
  have b3: "0 \<le> a3" "a3 \<le> 118" using assms(2,3) by (simp_all add: a3_def)
  have r4: "snd (riskRule c4 ''very_new_account'' 18 s3) = of_int (a3 + (if c4 then 18 else 0))"
    using snd_riskRule_int [of s3 a3 c4 18 18 "''very_new_account''"] r3 b3
    by simp
  have "accountAgeRules input nowMs acc = riskRule c4 ''very_new_account'' 18 s3"
    by (simp add: accountAgeRules_def Let_def s3_def c3_def c4_def accountAge_lt_hour
        accountAge_lt_very_new_scaled)
  with r4 show ?thesis
    by (simp only: a3_def c3_def c4_def)
qed

text \<open>
  The points of the history rules when \<open>priorFraudEventsForIp\<close> is an integer \<open>p\<close>, as
  every count that the submission handler passes.
\<close>

lemma historyRules_points:
  assumes "snd acc = of_int a" and "0 \<le> a" and "a \<le> 100"
    and "priorFraudEventsForIp input = of_int p"
  shows "snd (historyRules input n acc) =
     of_int (a + (if 0 < p then min 24 (p * 6) else 0) +
                 (if isFlagged (user input) then 26 else 0) +
                 (if answers input = [] \<and> 0 < n then 10 else 0))"
proof -
  define c5 where "c5 \<longleftrightarrow> 0 < p"
  define c6 where "c6 \<longleftrightarrow> isFlagged (user input)"
  define c7 where "c7 \<longleftrightarrow> answers input = [] \<and> 0 < n"
  define y where "y = min 24 (times_double (of_int p) 6)"
  define s5 where "s5 = riskRule c5 ''ip_history_flagged'' y acc"
  define s6 where "s6 = riskRule c6 ''user_previously_flagged'' 26 s5"
  define a5 where "a5 = a + (if c5 then min 24 (p * 6) else 0)"
  define a6 where "a6 = a5 + (if c6 then 26 else 0)"
  have y: "c5 \<longrightarrow> y = of_int (min 24 (p * 6)) \<and> 0 \<le> min 24 (p * 6) \<and> min 24 (p * 6) \<le> 50"
    unfolding c5_def y_def by (auto simp add: ip_history_points)
  have r5: "snd s5 = of_int a5"
    using snd_riskRule_int [of acc a c5 y "min 24 (p * 6)" "''ip_history_flagged''"] assms(1-3) y
    by (simp add: s5_def a5_def)
  have b5: "0 \<le> a5" "a5 \<le> 124" using assms(2,3) by (auto simp add: a5_def c5_def)
  have r6: "snd s6 = of_int a6"
    using snd_riskRule_int [of s5 a5 c6 26 26 "''user_previously_flagged''"] r5 b5
    by (simp add: s6_def a6_def)
  have b6: "0 \<le> a6" "a6 \<le> 150" using b5 by (simp_all add: a6_def)
  have r7: "snd (riskRule c7 ''missing_required_answers'' 10 s6) =
      of_int (a6 + (if c7 then 10 else 0))"
    using snd_riskRule_int [of s6 a6 c7 10 10 "''missing_required_answers''"] r6 b6
    by simp
  have "historyRules input n acc = riskRule c7 ''missing_required_answers'' 10 s6"
    by (simp add: historyRules_def s6_def s5_def c5_def c6_def c7_def y_def assms(4))
  with r7 show ?thesis
    by (simp only: a6_def a5_def c5_def c6_def c7_def)
qed

lemma accountAgeRules_velocityRules_points:
  "snd (accountAgeRules input nowMs (velocityRules input)) =
     of_int ((if 6 \<le> recentApplicationCount input then 22 else 0) +
             (if 12 \<le> recentApplicationCount input then 20 else 0) +
             (if nowMs - createdAt (user input) < 3600000 then 18 else 0) +
             (if nowMs - createdAt (user input) < 612000 then 18 else 0))"
  by (rule accountAgeRules_points [OF velocityRules_points]) simp_all

lemma riskAssessment_points:
  assumes "priorFraudEventsForIp input = of_int p"
  shows "snd (riskAssessment input nowMs n) =
     of_int
       ((if 6 \<le> recentApplicationCount input then 22 else 0) +
        (if 12 \<le> recentApplicationCount input then 20 else 0) +
        (if nowMs - createdAt (user input) < 3600000 then 18 else 0) +
        (if nowMs - createdAt (user input) < 612000 then 18 else 0) +
        (if 0 < p then min 24 (p * 6) else 0) +
        (if isFlagged (user input) then 26 else 0) +
        (if answers input = [] \<and> 0 < n then 10 else 0))"
  unfolding riskAssessment_def
  by (rule historyRules_points [OF accountAgeRules_velocityRules_points _ _ assms]) simp_all

lemma riskAssessment_integral:
  assumes "priorFraudEventsForIp input \<in> \<int>"
  obtains k where "snd (riskAssessment input nowMs n) = of_int k"
proof -
  from assms obtain p where "priorFraudEventsForIp input = of_int p"
    by (rule Ints_cases)
  then have "\<exists>k. snd (riskAssessment input nowMs n) = of_int k"
    by (simp only: riskAssessment_points) blast
  then show thesis using that by blast
qed

lemma riskAssessment_flags:
  "set (fst (riskAssessment input nowMs n)) =
     (if 6 \<le> recentApplicationCount input then {''high_application_velocity''} else {}) \<union>
     (if 12 \<le> recentApplicationCount input then {''extreme_application_velocity''} else {}) \<union>
     (if nowMs - createdAt (user input) < 3600000 then {''new_account''} else {}) \<union>
     (if nowMs - createdAt (user input) < 612000 then {''very_new_account''} else {}) \<union>
     (if 0 < priorFraudEventsForIp input then {''ip_history_flagged''} else {}) \<union>
     (if isFlagged (user input) then {''user_previously_flagged''} else {}) \<union>
     (if answers input = [] \<and> 0 < n then {''missing_required_answers''} else {})"
  by (simp add: riskAssessment_def historyRules_def accountAgeRules_def velocityRules_def
      Let_def set_fst_riskRule accountAge_lt_hour accountAge_lt_very_new_scaled
      split del: if_split)

lemma mem_if_single: "x \<in> (if c then {y} else {}) \<longleftrightarrow> c \<and> x = y"
  by simp

lemma new_account_flag:
  "''new_account'' \<in> set (fst (riskAssessment input nowMs n)) \<longleftrightarrow>
     nowMs - createdAt (user input) < 3600000"
  by (simp add: riskAssessment_flags mem_if_single split del: if_split)

lemma very_new_account_flag:
  "''very_new_account'' \<in> set (fst (riskAssessment input nowMs n)) \<longleftrightarrow>
     nowMs - createdAt (user input) < 612000"
  by (simp add: riskAssessment_flags mem_if_single split del: if_split)

text \<open>
  C1. For every input, \<open>needsManualReview\<close> is true exactly when the sum of the rule
  points, as the rules leave it, is at least 45 or \<open>requiredPassed\<close> is false. The
  returned \<open>riskScore\<close> is that sum rounded to the nearest integer and clamped to 0..100:
  it is at least 45 exactly when the sum is at least 44.5. So \<open>needsManualReview\<close>
  implies that the returned \<open>riskScore\<close> is at least 45 or \<open>requiredPassed\<close> is false,
  for every input; the converse fails exactly for a sum from 44.5 up to 45 with the
  required screeners passed, and holds whenever \<open>priorFraudEventsForIp\<close> is an integer,
  as it is in every call of the submission handler: the sum is an integer then.
\<close>

theorem needsManualReview_iff:
  "(let result = evaluateApplication clock input;
        points = snd (riskAssessment input
          (case now input of Some t \<Rightarrow> t | None \<Rightarrow> clock)
          (length (parseUniqueList (requiredScreeners (job input)))))
    in (needsManualReview result \<longleftrightarrow> 45 \<le> points \<or> \<not> requiredPassed result) \<and>
       riskScore result = clampScore points \<and>
       (45 \<le> riskScore result \<longleftrightarrow> 89 / 2 \<le> points) \<and>
       (needsManualReview result \<longrightarrow> 45 \<le> riskScore result \<or> \<not> requiredPassed result) \<and>
       (priorFraudEventsForIp input \<in> \<int> \<longrightarrow>
          (needsManualReview result \<longleftrightarrow>
             45 \<le> riskScore result \<or> \<not> requiredPassed result)))"
proof -
  define nowMs where "nowMs = (case now input of Some t \<Rightarrow> t | None \<Rightarrow> clock)"
  define n where "n = length (parseUniqueList (requiredScreeners (job input)))"
  define result where "result = evaluateApplication clock input"
  define points where "points = snd (riskAssessment input nowMs n)"
  have review: "needsManualReview result \<longleftrightarrow> 45 \<le> points \<or> \<not> requiredPassed result"
    unfolding result_def points_def nowMs_def n_def
    by (rule needsManualReview_evaluateApplication)
  have score: "riskScore result = clampScore points"
    unfolding result_def points_def nowMs_def n_def
    by (rule riskScore_evaluateApplication)
  have rounded: "45 \<le> riskScore result \<longleftrightarrow> 89 / 2 \<le> points"
    by (simp only: score clampScore_ge_45)
  have forth: "needsManualReview result \<longrightarrow> 45 \<le> riskScore result \<or> \<not> requiredPassed result"
    using review rounded by auto
  have integral: "needsManualReview result \<longleftrightarrow> 45 \<le> riskScore result \<or> \<not> requiredPassed result"
    if "priorFraudEventsForIp input \<in> \<int>"
  proof -
    from that obtain k where k: "points = of_int k"
      unfolding points_def by (rule riskAssessment_integral)
    have "45 \<le> riskScore result \<longleftrightarrow> 45 \<le> k"
      by (auto simp add: score k clampScore_of_int)
    moreover have "45 \<le> points \<longleftrightarrow> 45 \<le> k"
      by (simp add: k)
    ultimately show ?thesis using review by simp
  qed
  show ?thesis
    unfolding Let_def nowMs_def [symmetric] n_def [symmetric] result_def [symmetric]
      points_def [symmetric]
    using review score rounded forth integral by blast
qed

theorem needsManualReview_iff_witness:
  "priorFraudEventsForIp flaggedApplicant \<in> \<int> \<and>
   riskScore (evaluateApplication 0 flaggedApplicant) = 48 \<and>
   requiredPassed (evaluateApplication 0 flaggedApplicant) \<and>
   needsManualReview (evaluateApplication 0 flaggedApplicant)"
proof -
  have count: "priorFraudEventsForIp flaggedApplicant = of_int 0"
    by (simp add: flaggedApplicant_def)
  then have whole: "priorFraudEventsForIp flaggedApplicant \<in> \<int>"
    by (simp only: Ints_of_int)
  have score: "riskScore (evaluateApplication 0 flaggedApplicant) = 48"
    unfolding riskScore_evaluateApplication riskAssessment_points [OF count] clampScore_of_int
    by (simp add: flaggedApplicant_def)
  have screeners: "parseUniqueList ''Do you know Golang?'' = [''Do you know Golang?'']"
    by code_simp
  have matches: "answerMatchesPrompt ''Do you know Golang?''
      [\<lparr> question = ''Do you know Golang?'', answer = ''yes'' \<rparr>]"
    by code_simp
  have passed: "requiredPassed (evaluateApplication 0 flaggedApplicant)"
    by (simp add: requiredPassed_evaluateApplication flaggedApplicant_def screeners matches
        screenerScore_def)
  have "needsManualReview (evaluateApplication 0 flaggedApplicant) \<longleftrightarrow>
      45 \<le> riskScore (evaluateApplication 0 flaggedApplicant) \<or>
      \<not> requiredPassed (evaluateApplication 0 flaggedApplicant)"
    using needsManualReview_iff [of 0 flaggedApplicant] whole
    unfolding Let_def by blast
  then have "needsManualReview (evaluateApplication 0 flaggedApplicant)"
    by (simp add: score)
  with whole score passed show ?thesis by simp
qed

text \<open>
  C1 as the specification words it, for every input, fails for a fractional count: with
  six recent applications and 3.75 fraud events the sum is 22 + 22.5 = 44.5, under 45, so
  \<open>needsManualReview\<close> is false with the required screeners passed, and the returned
  \<open>riskScore\<close> is 44.5 rounded, 45. With 3.8 fraud events the sum is the double of
  44.8 and the outcome is the same.
\<close>

theorem needsManualReview_iff_counterexample:
  "snd (riskAssessment fractionalHistory 7200000 0) = 89 / 2 \<and>
   \<not> needsManualReview (evaluateApplication 0 fractionalHistory) \<and>
   requiredPassed (evaluateApplication 0 fractionalHistory) \<and>
   riskScore (evaluateApplication 0 fractionalHistory) = 45 \<and>
   snd (riskAssessment fractionalHistory38 7200000 0) = 3152519739159347 / 70368744177664 \<and>
   \<not> needsManualReview (evaluateApplication 0 fractionalHistory38) \<and>
   requiredPassed (evaluateApplication 0 fractionalHistory38) \<and>
   riskScore (evaluateApplication 0 fractionalHistory38) = 45"
proof -
  have fields: "now fractionalHistory = Some 7200000"
    "parseUniqueList (requiredScreeners (job fractionalHistory)) = []"
    "now fractionalHistory38 = Some 7200000"
    "parseUniqueList (requiredScreeners (job fractionalHistory38)) = []"
    by (simp_all add: fractionalHistory38_def fractionalHistory_def parseUniqueList_def
        parseList_def)
  have points: "snd (riskAssessment fractionalHistory 7200000 0) = 89 / 2"
    by code_simp
  have points38: "snd (riskAssessment fractionalHistory38 7200000 0) =
      3152519739159347 / 70368744177664"
    by code_simp
  have rounded: "clampScore (89 / 2) = 45"
    "clampScore (3152519739159347 / 70368744177664) = 45"
    by code_simp+
  show ?thesis
    by (simp add: needsManualReview_evaluateApplication riskScore_evaluateApplication
        requiredPassed_evaluateApplication fields points points38 rounded)
qed

text \<open>
  C9. An applicant whose account is less than one hour old at evaluation time gets the
  flag \<open>new_account\<close> and 18 points; one whose account is less than ten minutes old gets
  the flag \<open>very_new_account\<close> and 18 points more. Ages are in milliseconds. For every
  input the two age rules take the \<open>riskScore\<close> from its value \<open>before\<close>, after the
  rules on the recent applications, to the value \<open>after\<close>, 18 or 36 higher. The sum of
  all the points is compared with that of the same input with an account exactly one hour
  old, for which neither rule fires: the two sums differ by 18 or 36 for an integer
  \<open>priorFraudEventsForIp\<close>, as the submission handler passes it (the points of a
  fractional count are added after those of the age rules, in an addition that is
  rounded to a double). The returned \<open>riskScore\<close> is the sum of the points rounded and
  clamped to 0..100, for an integer count the sum clamped to 0..100. The flag
  \<open>new_account\<close> is set for exactly the ages under one hour. The code's bound for
  \<open>very_new_account\<close> is 0.17 hours, that is 612000 ms: it covers every age under ten
  minutes (600000 ms), and the ages from ten minutes to 10.2 minutes as well.
\<close>

theorem account_age_rules:
  "(let nowMs = (case now input of Some t \<Rightarrow> t | None \<Rightarrow> clock);
        n = length (parseUniqueList (requiredScreeners (job input)));
        age = nowMs - createdAt (user input);
        older = input\<lparr>user := (user input)\<lparr>createdAt := nowMs - 3600000\<rparr>\<rparr>;
        result = evaluateApplication clock input;
        before = snd (velocityRules input);
        after = snd (accountAgeRules input nowMs (velocityRules input));
        points = snd (riskAssessment input nowMs n);
        pointsOlder = snd (riskAssessment older nowMs n)
    in (age < 3600000 \<longrightarrow>
          ''new_account'' \<in> set (riskFlags result) \<and>
          ''new_account'' \<notin> set (riskFlags (evaluateApplication clock older)) \<and>
          after = before + 18 +
            (if ''very_new_account'' \<in> set (riskFlags result) then 18 else 0) \<and>
          (priorFraudEventsForIp input \<in> \<int> \<longrightarrow>
             points = pointsOlder + 18 +
               (if ''very_new_account'' \<in> set (riskFlags result) then 18 else 0))) \<and>
       (age < 600000 \<longrightarrow>
          ''very_new_account'' \<in> set (riskFlags result) \<and>
          ''very_new_account'' \<notin> set (riskFlags (evaluateApplication clock older)) \<and>
          after = before + 36 \<and>
          (priorFraudEventsForIp input \<in> \<int> \<longrightarrow> points = pointsOlder + 36)) \<and>
       (''new_account'' \<in> set (riskFlags result) \<longleftrightarrow> age < 3600000) \<and>
       (''very_new_account'' \<in> set (riskFlags result) \<longleftrightarrow> age < 612000) \<and>
       points = snd (historyRules input n
         (accountAgeRules input nowMs (velocityRules input))) \<and>
       riskScore result = clampScore points \<and>
       (priorFraudEventsForIp input \<in> \<int> \<longrightarrow>
          of_int (riskScore result) = max 0 (min 100 points)))"
proof -
  define nowMs where "nowMs = (case now input of Some t \<Rightarrow> t | None \<Rightarrow> clock)"
  define n where "n = length (parseUniqueList (requiredScreeners (job input)))"
  define older where "older = input\<lparr>user := (user input)\<lparr>createdAt := nowMs - 3600000\<rparr>\<rparr>"
  define age where "age = nowMs - createdAt (user input)"
  define result where "result = evaluateApplication clock input"
  define before where "before = snd (velocityRules input)"
  define after where "after = snd (accountAgeRules input nowMs (velocityRules input))"
  define points where "points = snd (riskAssessment input nowMs n)"
  define pointsOlder where "pointsOlder = snd (riskAssessment older nowMs n)"
  have older_now: "(case now older of Some t \<Rightarrow> t | None \<Rightarrow> clock) = nowMs"
    by (simp add: older_def nowMs_def)
  have older_job: "job older = job input"
    by (simp add: older_def)
  have flags: "riskFlags result = fst (riskAssessment input nowMs n)"
    by (simp add: result_def riskFlags_evaluateApplication nowMs_def n_def)
  have flagsOlder: "riskFlags (evaluateApplication clock older) =
      fst (riskAssessment older nowMs n)"
    by (simp add: riskFlags_evaluateApplication older_now older_job n_def)
  have score: "riskScore result = clampScore points"
    by (simp add: result_def points_def riskScore_evaluateApplication nowMs_def n_def)
  have staged: "points = snd (historyRules input n
      (accountAgeRules input nowMs (velocityRules input)))"
    by (simp only: points_def riskAssessment_def)
  have older_fields: "createdAt (user older) = nowMs - 3600000"
    "recentApplicationCount older = recentApplicationCount input"
    "priorFraudEventsForIp older = priorFraudEventsForIp input"
    "isFlagged (user older) = isFlagged (user input)"
    "answers older = answers input"
    by (simp_all add: older_def)
  have new: "''new_account'' \<in> set (riskFlags result) \<longleftrightarrow> age < 3600000"
    by (simp only: flags new_account_flag age_def)
  have veryNew: "''very_new_account'' \<in> set (riskFlags result) \<longleftrightarrow> age < 612000"
    by (simp only: flags very_new_account_flag age_def)
  have newOlder: "''new_account'' \<notin> set (riskFlags (evaluateApplication clock older))"
    by (simp add: flagsOlder new_account_flag older_fields)
  have veryNewOlder: "''very_new_account'' \<notin> set (riskFlags (evaluateApplication clock older))"
    by (simp add: flagsOlder very_new_account_flag older_fields)
  have added: "after = before + (if age < 3600000 then 18 else 0) +
      (if age < 612000 then 18 else 0)"
    unfolding after_def before_def accountAgeRules_velocityRules_points velocityRules_points
    by (simp add: age_def if_distrib [of of_int] split del: if_split cong: if_cong)
  have sums: "points = pointsOlder + (if age < 3600000 then 18 else 0) +
      (if age < 612000 then 18 else 0)"
    and clamped: "of_int (riskScore result) = max 0 (min 100 points)"
    if "priorFraudEventsForIp input \<in> \<int>"
  proof -
    from that obtain p where p: "priorFraudEventsForIp input = of_int p"
      by (rule Ints_cases)
    then have pOlder: "priorFraudEventsForIp older = of_int p"
      by (simp add: older_fields)
    show "points = pointsOlder + (if age < 3600000 then 18 else 0) +
        (if age < 612000 then 18 else 0)"
      unfolding points_def pointsOlder_def riskAssessment_points [OF p]
        riskAssessment_points [OF pOlder]
      by (simp add: older_fields age_def if_distrib [of of_int] split del: if_split
          cong: if_cong)
    show "of_int (riskScore result) = max 0 (min 100 points)"
      unfolding score points_def riskAssessment_points [OF p] clampScore_of_int
      by (simp only: of_int_max of_int_min of_int_0 of_int_numeral)
  qed
  have hour: "age < 3600000 \<longrightarrow>
      ''new_account'' \<in> set (riskFlags result) \<and>
      ''new_account'' \<notin> set (riskFlags (evaluateApplication clock older)) \<and>
      after = before + 18 +
        (if ''very_new_account'' \<in> set (riskFlags result) then 18 else 0) \<and>
      (priorFraudEventsForIp input \<in> \<int> \<longrightarrow>
         points = pointsOlder + 18 +
           (if ''very_new_account'' \<in> set (riskFlags result) then 18 else 0))"
    using new newOlder sums added by (simp add: veryNew)
  have tenMinutes: "age < 600000 \<longrightarrow>
      ''very_new_account'' \<in> set (riskFlags result) \<and>
      ''very_new_account'' \<notin> set (riskFlags (evaluateApplication clock older)) \<and>
      after = before + 36 \<and>
      (priorFraudEventsForIp input \<in> \<int> \<longrightarrow> points = pointsOlder + 36)"
    using veryNew veryNewOlder sums added by simp
  show ?thesis
    unfolding Let_def nowMs_def [symmetric] n_def [symmetric] older_def [symmetric]
      age_def [symmetric] result_def [symmetric] before_def [symmetric]
      after_def [symmetric] points_def [symmetric] pointsOlder_def [symmetric]
    using hour tenMinutes new veryNew staged score clamped by blast
qed

theorem account_age_rules_witness:
  "(1300000 :: int) - createdAt (user freshApplicant) < 600000 \<and>
   priorFraudEventsForIp freshApplicant \<in> \<int> \<and>
   ''new_account'' \<in> set (riskFlags (evaluateApplication 0 freshApplicant)) \<and>
   ''very_new_account'' \<in> set (riskFlags (evaluateApplication 0 freshApplicant)) \<and>
   snd (accountAgeRules freshApplicant 1300000 (velocityRules freshApplicant)) = 36 \<and>
   snd (riskAssessment freshApplicant 1300000 0) = 36 \<and>
   riskScore (evaluateApplication 0 freshApplicant) = 36"
proof -
  have fields: "now freshApplicant = Some 1300000" "createdAt (user freshApplicant) = 1000000"
    "parseUniqueList (requiredScreeners (job freshApplicant)) = []"
    by (simp_all add: freshApplicant_def parseUniqueList_def parseList_def)
  have count: "priorFraudEventsForIp
      (freshApplicant\<lparr>user := (user freshApplicant)\<lparr>createdAt := 1300000 - 3600000\<rparr>\<rparr>) =
      of_int 0"
    by (simp add: freshApplicant_def)
  have whole: "priorFraudEventsForIp freshApplicant \<in> \<int>"
    by (simp add: freshApplicant_def)
  have older: "snd (riskAssessment
      (freshApplicant\<lparr>user := (user freshApplicant)\<lparr>createdAt := 1300000 - 3600000\<rparr>\<rparr>)
      1300000 0) = 0"
    unfolding riskAssessment_points [OF count]
    by (simp add: freshApplicant_def)
  have before: "snd (velocityRules freshApplicant) = 0"
    unfolding velocityRules_points by (simp add: freshApplicant_def)
  have rounded: "clampScore 36 = 36"
    using clampScore_of_int [of 36] by simp
  show ?thesis
    using account_age_rules [where input = freshApplicant and clock = 0] older whole before
    by (simp add: Let_def fields rounded)
qed

text \<open>
  The sums of all the points need an integer count to differ by exactly 36: with 0.1 fraud
  events an account of five minutes gets 36 + 0.6000000000000001 rounded to a double, and
  an account of one hour gets 0.6000000000000001.
\<close>

lemma account_age_sums_of_fractional_count:
  "snd (riskAssessment (freshApplicant\<lparr>priorFraudEventsForIp := toDouble (1 / 10)\<rparr>) 1300000 0) -
   snd (riskAssessment
     (freshApplicant\<lparr>priorFraudEventsForIp := toDouble (1 / 10),
        user := (user freshApplicant)\<lparr>createdAt := 1300000 - 3600000\<rparr>\<rparr>) 1300000 0) =
   36 + 3 / 2 ^ 51"
  by code_simp

section \<open>Screener matching\<close>








section \<open>Rebalancing two interviewers with five and one interviews\<close>







section \<open>Properties of application submission\<close>

text \<open>
  For an integer count of fraud events the sum of the rule points is an integer, and the
  test of \<open>blockForAbuse\<close> on the sum agrees with the test on the returned \<open>riskScore\<close>.
\<close>

lemma blockForAbuse_iff:
  assumes "priorFraudEventsForIp input \<in> \<int>"
  shows "blockForAbuse (evaluateApplication clock input) \<longleftrightarrow>
     72 \<le> riskScore (evaluateApplication clock input)"
proof -
  from assms obtain k where
    "snd (riskAssessment input (case now input of Some t \<Rightarrow> t | None \<Rightarrow> clock)
       (length (parseUniqueList (requiredScreeners (job input))))) = of_int k"
    by (rule riskAssessment_integral)
  then show ?thesis
    by (auto simp add: blockForAbuse_evaluateApplication riskScore_evaluateApplication
        clampScore_of_int)
qed

lemma handler_count_integral: "priorFraudEventsForIp (scoringInputFor j u as r f) \<in> \<int>"
  by (simp add: scoringInputFor_def)

lemma riskRule_no_flag_no_points:
  "(fst acc = [] \<longrightarrow> snd acc = 0) \<Longrightarrow>
   (fst (riskRule cond flag points acc) = [] \<longrightarrow> snd (riskRule cond flag points acc) = 0)"
  by (simp add: riskRule_def)

lemma riskAssessment_no_flag_no_points:
  "fst (riskAssessment input nowMs n) = [] \<longrightarrow> snd (riskAssessment input nowMs n) = 0"
  unfolding riskAssessment_def historyRules_def accountAgeRules_def velocityRules_def Let_def
  by (intro riskRule_no_flag_no_points) simp

lemma riskFlags_nonempty:
  assumes "0 < riskScore (evaluateApplication clock input)"
  shows "riskFlags (evaluateApplication clock input) \<noteq> []"
proof
  assume "riskFlags (evaluateApplication clock input) = []"
  then have "riskScore (evaluateApplication clock input) = 0"
    using riskAssessment_no_flag_no_points clampScore_of_int [of 0]
    by (simp add: riskFlags_evaluateApplication riskScore_evaluateApplication)
  with assms show False by simp
qed




text \<open>
  C3. When a request reaches scoring (it passes the same checks and the pair of applicant
  and job has no Application yet) and the scoring engine returns a \<open>riskScore\<close> of at
  least 72, then \<open>blockForAbuse\<close> is true, the answer is the rejection with status 429,
  and the store changes in one place only: one fraud event with decision \<open>block\<close> and
  severity \<open>high\<close> is appended. No Application is created.
\<close>

theorem blocked_submission_persists_no_application:
  assumes "throttleAllowed req"
    and "session req = Some su"
    and "role su = ''CANDIDATE'' \<or> role su = ''ADMIN''"
    and "bodyJobId req = Some jid"
    and "find (\<lambda>j. jobId j = jid) (jobs store) = Some j"
    and "find (\<lambda>u. userId u = sessionUserId su) (users store) = Some u"
    and "\<not> (\<exists>a \<in> set (applications store).
              applicationUserId a = sessionUserId su \<and> applicationJobId a = jid)"
    and "scoring = evaluateApplication (clock 2)
           (scoringInputFor j u (parseScreenerAnswers (bodyAnswers req))
              (recentApplicationCountOf store (sessionUserId su) (clock 0))
              (priorFraudEventsOf store (clientIdentifier req) (clock 1)))"
    and "72 \<le> riskScore scoring"
  shows "blockForAbuse scoring \<and>
         POST clock req store =
           (JsonError 429
              ''Application blocked due to abuse risk. Contact support if this is a mistake.'',
            store\<lparr> fraudEvents := fraudEvents store @
              [\<lparr> flow = ''application_create'',
                 fraudUserId = sessionUserId su,
                 fraudSourceIp = clientIdentifier req,
                 severity = ''high'',
                 decision = ''block'',
                 fraudCreatedAt = clock 3 \<rparr>] \<rparr>) \<and>
         applications (snd (POST clock req store)) = applications store"
proof -
  have none: "find (\<lambda>a. applicationUserId a = sessionUserId su \<and> applicationJobId a = jid)
      (applications store) = None"
    using assms(7) by (simp add: find_None_iff)
  have block: "blockForAbuse scoring"
    using assms(9) unfolding assms(8)
    by (simp add: blockForAbuse_iff handler_count_integral)
  have flags: "riskFlags scoring \<noteq> []"
    using assms(9) unfolding assms(8) by (intro riskFlags_nonempty) simp
  have post: "POST clock req store =
      (JsonError 429
         ''Application blocked due to abuse risk. Contact support if this is a mistake.'',
       store\<lparr> fraudEvents := fraudEvents store @
         [\<lparr> flow = ''application_create'',
            fraudUserId = sessionUserId su,
            fraudSourceIp = clientIdentifier req,
            severity = ''high'',
            decision = ''block'',
            fraudCreatedAt = clock 3 \<rparr>] \<rparr>)"
    using assms(1-6) none block flags assms(9)
    unfolding assms(8)
    by (simp add: POST_def Let_def del: One_nat_def)
  show ?thesis
    using block post by simp
qed

theorem blocked_submission_persists_no_application_witness:
  "riskScore (evaluateApplication 1300000 (scoringInputFor golangJob flaggedUser [] 0 0)) = 72 \<and>
   POST (\<lambda>k. 1300000) candidateRequest emptyStore =
     (JsonError 429
        ''Application blocked due to abuse risk. Contact support if this is a mistake.'',
      emptyStore\<lparr> fraudEvents :=
        [\<lparr> flow = ''application_create'', fraudUserId = ''u1'',
           fraudSourceIp = ''203.0.113.9'', severity = ''high'', decision = ''block'',
           fraudCreatedAt = 1300000 \<rparr>] \<rparr>) \<and>
   applications (snd (POST (\<lambda>k. 1300000) candidateRequest emptyStore)) = []"
proof -
  have allowed: "throttleAllowed candidateRequest"
    and session: "session candidateRequest = Some \<lparr> sessionUserId = ''u1'', role = ''CANDIDATE'' \<rparr>"
    and job: "bodyJobId candidateRequest = Some 7"
    and body: "bodyAnswers candidateRequest = None"
    and ip: "clientIdentifier candidateRequest = ''203.0.113.9''"
    by (simp_all add: candidateRequest_def)
  have role: "role \<lparr> sessionUserId = ''u1'', role = ''CANDIDATE'' \<rparr> = ''CANDIDATE'' \<or>
      role \<lparr> sessionUserId = ''u1'', role = ''CANDIDATE'' \<rparr> = ''ADMIN''"
    by simp
  have findJob: "find (\<lambda>j. jobId j = 7) (jobs emptyStore) = Some golangJob"
    by (simp add: emptyStore_def golangJob_def)
  have findUser: "find (\<lambda>u. userId u = sessionUserId \<lparr> sessionUserId = ''u1'', role = ''CANDIDATE'' \<rparr>)
      (users emptyStore) = Some flaggedUser"
    by (simp add: emptyStore_def flaggedUser_def)
  have fresh: "\<not> (\<exists>a \<in> set (applications emptyStore).
      applicationUserId a = sessionUserId \<lparr> sessionUserId = ''u1'', role = ''CANDIDATE'' \<rparr> \<and>
      applicationJobId a = 7)"
    by (simp add: emptyStore_def)
  have counts: "recentApplicationCountOf emptyStore ''u1'' 1300000 = 0"
    "priorFraudEventsOf emptyStore ''203.0.113.9'' 1300000 = 0"
    by (simp_all add: recentApplicationCountOf_def priorFraudEventsOf_def emptyStore_def)
  have scoring: "evaluateApplication 1300000 (scoringInputFor golangJob flaggedUser [] 0 0) =
      evaluateApplication ((\<lambda>k. 1300000) (2 :: nat))
        (scoringInputFor golangJob flaggedUser
           (parseScreenerAnswers (bodyAnswers candidateRequest))
           (recentApplicationCountOf emptyStore
              (sessionUserId \<lparr> sessionUserId = ''u1'', role = ''CANDIDATE'' \<rparr>)
              ((\<lambda>k. 1300000) (0 :: nat)))
           (priorFraudEventsOf emptyStore (clientIdentifier candidateRequest)
              ((\<lambda>k. 1300000) (1 :: nat))))"
    by (simp add: body ip counts parseScreenerAnswers_def)
  have screeners: "parseUniqueList ''Golang?'' = [''Golang?'']"
    by code_simp
  have count: "priorFraudEventsForIp (scoringInputFor golangJob flaggedUser [] 0 0) = of_int 0"
    by (simp add: scoringInputFor_def)
  have risk: "riskScore (evaluateApplication 1300000
      (scoringInputFor golangJob flaggedUser [] 0 0)) = 72"
    unfolding riskScore_evaluateApplication riskAssessment_points [OF count] clampScore_of_int
    by (simp add: scoringInputFor_def golangJob_def flaggedUser_def screeners)
  have high: "72 \<le> riskScore (evaluateApplication 1300000
      (scoringInputFor golangJob flaggedUser [] 0 0))"
    by (simp add: risk)
  have events: "fraudEvents emptyStore = []"
    by (simp add: emptyStore_def)
  show ?thesis
    using blocked_submission_persists_no_application
      [OF allowed session role job findJob findUser fresh scoring high]
    by (simp add: risk ip events emptyStore_def)
qed

section \<open>Properties of alert delivery: the counters\<close>

lemma pendingUniqueCount_zero:
  "pendingUniqueCount (channelPendingCounts ps) = 0 \<longleftrightarrow>
     emailAlerts (channelPendingCounts ps) = [] \<and>
     inAppAlerts (channelPendingCounts ps) = [] \<and>
     pushAlerts (channelPendingCounts ps) = []"
proof -
  have "length (remdups xs) = 0 \<longleftrightarrow> xs = []" for xs :: "int list"
    by simp
  then show ?thesis
    by (simp add: channelPendingCounts_def Let_def)
qed

subsection \<open>Attempts and waiting searches counted by the run\<close>

lemma emailInstantLoop_counters:
  "attemptedDeliveries (snd (foldl (emailInstantStep provider ps runAt) state as)) =
     attemptedDeliveries (snd state) + length as \<and>
   waitingDigestSearches (snd (foldl (emailInstantStep provider ps runAt) state as)) =
     waitingDigestSearches (snd state)"
proof (induction as arbitrary: state)
  case Nil
  show ?case by simp
next
  case (Cons a as)
  have step: "attemptedDeliveries (snd (emailInstantStep provider ps runAt state a)) =
      attemptedDeliveries (snd state) + 1 \<and>
    waitingDigestSearches (snd (emailInstantStep provider ps runAt state a)) =
      waitingDigestSearches (snd state)"
    by (simp add: emailInstantStep_def Let_def)
  show ?case
    using Cons.IH [of "emailInstantStep provider ps runAt state a"] step by simp
qed

lemma inAppInstantBlock_counters:
  "attemptedDeliveries (snd (inAppInstantBlock ps as runAt state)) =
     attemptedDeliveries (snd state) + length as \<and>
   waitingDigestSearches (snd (inAppInstantBlock ps as runAt state)) =
     waitingDigestSearches (snd state)"
  by (simp add: inAppInstantBlock_def Let_def)

lemma pushInstantBlock_counters:
  "attemptedDeliveries (snd (pushInstantBlock provider ps as runAt state)) =
     attemptedDeliveries (snd state) +
       (if as = [] then 0 else if pushDeferred (search ps) then 1 else length as) \<and>
   waitingDigestSearches (snd (pushInstantBlock provider ps as runAt state)) =
     waitingDigestSearches (snd state)"
  by (simp add: pushInstantBlock_def Let_def)

lemma emailDigestBlock_counters:
  "attemptedDeliveries (snd (emailDigestBlock provider ps as runAt state)) =
     attemptedDeliveries (snd state) + (if as = [] then 0 else 1) \<and>
   waitingDigestSearches (snd (emailDigestBlock provider ps as runAt state)) =
     waitingDigestSearches (snd state)"
  by (simp add: emailDigestBlock_def Let_def)

lemma inAppDigestBlock_counters:
  "attemptedDeliveries (snd (inAppDigestBlock ps as runAt state)) =
     attemptedDeliveries (snd state) + (if as = [] then 0 else 1) \<and>
   waitingDigestSearches (snd (inAppDigestBlock ps as runAt state)) =
     waitingDigestSearches (snd state)"
  by (simp add: inAppDigestBlock_def Let_def)

lemma pushDigestBlock_counters:
  "attemptedDeliveries (snd (pushDigestBlock provider ps as runAt state)) =
     attemptedDeliveries (snd state) + (if as = [] then 0 else 1) \<and>
   waitingDigestSearches (snd (pushDigestBlock provider ps as runAt state)) =
     waitingDigestSearches (snd state)"
  by (simp add: pushDigestBlock_def Let_def)

lemma processSearch_counters:
  "attemptedDeliveries (snd (processSearch runAt provider state ps)) =
     attemptedDeliveries (snd state) + attemptsFor runAt ps \<and>
   waitingDigestSearches (snd (processSearch runAt provider state ps)) =
     waitingDigestSearches (snd state) + (if searchMode runAt ps = WaitingDigest then 1 else 0)"
  by (simp add: processSearch_def attemptsFor_def searchMode_def Let_def
      emailInstantLoop_counters inAppInstantBlock_counters pushInstantBlock_counters
      emailDigestBlock_counters inAppDigestBlock_counters pushDigestBlock_counters)


subsection \<open>Pending alerts counted by the preview\<close>





lemma fetched_iff:
  "ps \<in> set (fetchPendingSearches uid store) \<longleftrightarrow>
     (\<exists>s \<in> set (savedSearches store). selectedSearch uid s \<and> ps = withPendingAlerts store s)"
  by (auto simp: fetchPendingSearches_def)

lemma fetched_search_in_store:
  "ps \<in> set (fetchPendingSearches uid store) \<Longrightarrow> search ps \<in> set (savedSearches store)"
  by (auto simp: fetched_iff withPendingAlerts_def)




section \<open>Properties of alert delivery: the store\<close>

subsection \<open>The writes\<close>

lemma createLog_fields:
  "savedSearches (createLog row st) = savedSearches st"
  "jobAlerts (createLog row st) = jobAlerts st"
  "alertDeliveryLogs (createLog row st) = alertDeliveryLogs st @ [row]"
  by (simp_all add: createLog_def)

lemma stamp_nil: "stamp [] [] [] t = (\<lambda>a. a)"
  by (rule ext) (simp add: stamp_def)

lemma alertId_stamp: "alertId (stamp es is ps t a) = alertId a"
  by (simp add: stamp_def)


lemma stamp_comp:
  "stamp es2 is2 ps2 t \<circ> stamp es1 is1 ps1 t = stamp (es1 @ es2) (is1 @ is2) (ps1 @ ps2) t"
  by (rule ext) (simp add: stamp_def)

lemma map_stamp_nil: "map (stamp [] [] [] t) as = as"
  by (simp add: stamp_nil)

lemma markEmailSent_fields:
  "savedSearches (markEmailSent ids t st) = savedSearches st"
  "jobAlerts (markEmailSent ids t st) = map (stamp ids [] [] t) (jobAlerts st)"
  "alertDeliveryLogs (markEmailSent ids t st) = alertDeliveryLogs st"
  by (simp_all add: markEmailSent_def stamp_def)

lemma markInAppSent_fields:
  "savedSearches (markInAppSent ids t st) = savedSearches st"
  "jobAlerts (markInAppSent ids t st) = map (stamp [] ids [] t) (jobAlerts st)"
  "alertDeliveryLogs (markInAppSent ids t st) = alertDeliveryLogs st"
  by (simp_all add: markInAppSent_def stamp_def)

lemma markPushSent_fields:
  "savedSearches (markPushSent ids t st) = savedSearches st"
  "jobAlerts (markPushSent ids t st) = map (stamp [] [] ids t) (jobAlerts st)"
  "alertDeliveryLogs (markPushSent ids t st) = alertDeliveryLogs st"
  by (simp_all add: markPushSent_def stamp_def)

lemma setLastDigestAt_fields:
  "savedSearches (setLastDigestAt sid t st) =
     map (\<lambda>s. if searchId s = sid then s\<lparr> lastDigestAt := Some t \<rparr> else s) (savedSearches st)"
  "jobAlerts (setLastDigestAt sid t st) = jobAlerts st"
  "alertDeliveryLogs (setLastDigestAt sid t st) = alertDeliveryLogs st"
  by (simp_all add: setLastDigestAt_def)

lemmas write_fields =
  createLog_fields markEmailSent_fields markInAppSent_fields markPushSent_fields
  setLastDigestAt_fields

subsection \<open>The blocks of the loop body\<close>

lemma emailInstantStep_store:
  "savedSearches (fst (emailInstantStep provider ps runAt state a)) = savedSearches (fst state)"
  "jobAlerts (fst (emailInstantStep provider ps runAt state a)) =
     map (stamp (if provider (EmailInstantAttempt (searchId (search ps)) (alertId a))
                 then [alertId a] else []) [] [] (getTime runAt))
       (jobAlerts (fst state))"
  "alertDeliveryLogs (fst (emailInstantStep provider ps runAt state a)) =
     alertDeliveryLogs (fst state) @
       [logRow runAt ps (Some (alertId a)) ''email'' ''instant''
          (provider (EmailInstantAttempt (searchId (search ps)) (alertId a)))]"
  by (simp_all add: emailInstantStep_def Let_def write_fields logRow_def map_stamp_nil)

lemma emailInstantLoop_store:
  "savedSearches (fst (foldl (emailInstantStep provider ps runAt) state as)) =
     savedSearches (fst state) \<and>
   jobAlerts (fst (foldl (emailInstantStep provider ps runAt) state as)) =
     map (stamp (map alertId (filter
            (\<lambda>a. provider (EmailInstantAttempt (searchId (search ps)) (alertId a))) as))
          [] [] (getTime runAt))
       (jobAlerts (fst state)) \<and>
   alertDeliveryLogs (fst (foldl (emailInstantStep provider ps runAt) state as)) =
     alertDeliveryLogs (fst state) @
       map (\<lambda>a. logRow runAt ps (Some (alertId a)) ''email'' ''instant''
                  (provider (EmailInstantAttempt (searchId (search ps)) (alertId a)))) as"
proof (induction as arbitrary: state)
  case Nil
  show ?case by (simp add: map_stamp_nil)
next
  case (Cons a as)
  show ?case
    using Cons.IH [of "emailInstantStep provider ps runAt state a"]
    by (simp add: emailInstantStep_store stamp_comp)
qed

lemma createInternalDeliveryLogs_store:
  "savedSearches (fst (createInternalDeliveryLogs ps as runAt kind st)) = savedSearches st"
  "jobAlerts (fst (createInternalDeliveryLogs ps as runAt kind st)) = jobAlerts st"
  "alertDeliveryLogs (fst (createInternalDeliveryLogs ps as runAt kind st)) =
     alertDeliveryLogs st @ map (\<lambda>a. logRow runAt ps (Some (alertId a)) ''in_app'' kind True) as"
  "snd (createInternalDeliveryLogs ps as runAt kind st) = length as"
  by (simp_all add: createInternalDeliveryLogs_def Let_def logRow_def)

lemma inAppInstantBlock_store:
  "savedSearches (fst (inAppInstantBlock ps as runAt state)) = savedSearches (fst state)"
  "jobAlerts (fst (inAppInstantBlock ps as runAt state)) =
     map (stamp [] (map alertId as) [] (getTime runAt)) (jobAlerts (fst state))"
  "alertDeliveryLogs (fst (inAppInstantBlock ps as runAt state)) =
     alertDeliveryLogs (fst state) @
       map (\<lambda>a. logRow runAt ps (Some (alertId a)) ''in_app'' ''instant'' True) as"
  by (simp_all add: inAppInstantBlock_def Let_def write_fields createInternalDeliveryLogs_store
      map_stamp_nil)

lemma inAppDigestBlock_store:
  "savedSearches (fst (inAppDigestBlock ps as runAt state)) = savedSearches (fst state)"
  "jobAlerts (fst (inAppDigestBlock ps as runAt state)) =
     map (stamp [] (map alertId as) [] (getTime runAt)) (jobAlerts (fst state))"
  "alertDeliveryLogs (fst (inAppDigestBlock ps as runAt state)) =
     alertDeliveryLogs (fst state) @
       map (\<lambda>a. logRow runAt ps (Some (alertId a)) ''in_app'' ''digest'' True) as"
  by (simp_all add: inAppDigestBlock_def Let_def write_fields createInternalDeliveryLogs_store
      map_stamp_nil)

lemma deliverPushDigest_store:
  "savedSearches (fst (deliverPushDigest provider ps as runAt st)) = savedSearches st"
  "jobAlerts (fst (deliverPushDigest provider ps as runAt st)) =
     map (stamp [] []
            (if provider (PushDigestAttempt (searchId (search ps)) (map alertId as))
             then map alertId as else []) (getTime runAt))
       (jobAlerts st)"
  "alertDeliveryLogs (fst (deliverPushDigest provider ps as runAt st)) =
     alertDeliveryLogs st @
       (if as = [] then []
        else [logRow runAt ps None ''push'' ''digest''
                (provider (PushDigestAttempt (searchId (search ps)) (map alertId as)))])"
  by (simp_all add: deliverPushDigest_def Let_def write_fields logRow_def map_stamp_nil)

lemma pushInstantStep_store:
  "savedSearches (fst (pushInstantStep provider ps runAt state a)) = savedSearches (fst state)"
  "jobAlerts (fst (pushInstantStep provider ps runAt state a)) =
     map (stamp [] []
            (if provider (PushInstantAttempt (searchId (search ps)) (alertId a))
             then [alertId a] else []) (getTime runAt))
       (jobAlerts (fst state))"
  "alertDeliveryLogs (fst (pushInstantStep provider ps runAt state a)) =
     alertDeliveryLogs (fst state) @
       [logRow runAt ps (Some (alertId a)) ''push'' ''instant''
          (provider (PushInstantAttempt (searchId (search ps)) (alertId a)))]"
  by (simp_all add: pushInstantStep_def Let_def write_fields logRow_def map_stamp_nil)

lemma pushInstantLoop_store:
  "savedSearches (fst (foldl (pushInstantStep provider ps runAt) state as)) =
     savedSearches (fst state) \<and>
   jobAlerts (fst (foldl (pushInstantStep provider ps runAt) state as)) =
     map (stamp [] []
            (map alertId (filter
               (\<lambda>a. provider (PushInstantAttempt (searchId (search ps)) (alertId a))) as))
            (getTime runAt))
       (jobAlerts (fst state)) \<and>
   alertDeliveryLogs (fst (foldl (pushInstantStep provider ps runAt) state as)) =
     alertDeliveryLogs (fst state) @
       map (\<lambda>a. logRow runAt ps (Some (alertId a)) ''push'' ''instant''
                  (provider (PushInstantAttempt (searchId (search ps)) (alertId a)))) as"
proof (induction as arbitrary: state)
  case Nil
  show ?case by (simp add: map_stamp_nil)
next
  case (Cons a as)
  show ?case
    using Cons.IH [of "pushInstantStep provider ps runAt state a"]
    by (simp add: pushInstantStep_store stamp_comp)
qed

lemma pushInstantBlock_store:
  "savedSearches (fst (pushInstantBlock provider ps as runAt state)) = savedSearches (fst state)"
  "jobAlerts (fst (pushInstantBlock provider ps as runAt state)) =
     map (stamp [] []
            (map alertId (filter
               (\<lambda>a. provider
                  (if pushDeferred (search ps)
                   then PushDigestAttempt (searchId (search ps)) (map alertId as)
                   else PushInstantAttempt (searchId (search ps)) (alertId a))) as))
            (getTime runAt))
       (jobAlerts (fst state))"
  "alertDeliveryLogs (fst (pushInstantBlock provider ps as runAt state)) =
     alertDeliveryLogs (fst state) @
       (if as = [] then []
        else if pushDeferred (search ps)
        then [logRow runAt ps None ''push'' ''digest''
                (provider (PushDigestAttempt (searchId (search ps)) (map alertId as)))]
        else map (\<lambda>a. logRow runAt ps (Some (alertId a)) ''push'' ''instant''
                        (provider (PushInstantAttempt (searchId (search ps)) (alertId a)))) as)"
  by (simp_all add: pushInstantBlock_def Let_def deliverPushDigest_store
      deliverPushInstantPerAlert_def pushInstantLoop_store map_stamp_nil)

lemma emailDigestBlock_store:
  "savedSearches (fst (emailDigestBlock provider ps as runAt state)) = savedSearches (fst state)"
  "jobAlerts (fst (emailDigestBlock provider ps as runAt state)) =
     map (stamp
            (if provider (EmailDigestAttempt (searchId (search ps)) (map alertId as))
             then map alertId as else []) [] [] (getTime runAt))
       (jobAlerts (fst state))"
  "alertDeliveryLogs (fst (emailDigestBlock provider ps as runAt state)) =
     alertDeliveryLogs (fst state) @
       (if as = [] then []
        else [logRow runAt ps None ''email'' ''digest''
                (provider (EmailDigestAttempt (searchId (search ps)) (map alertId as)))])"
  by (simp_all add: emailDigestBlock_def Let_def write_fields logRow_def map_stamp_nil)

lemma pushDigestBlock_store:
  "savedSearches (fst (pushDigestBlock provider ps as runAt state)) = savedSearches (fst state)"
  "jobAlerts (fst (pushDigestBlock provider ps as runAt state)) =
     map (stamp [] []
            (if provider (PushDigestAttempt (searchId (search ps)) (map alertId as))
             then map alertId as else []) (getTime runAt))
       (jobAlerts (fst state))"
  "alertDeliveryLogs (fst (pushDigestBlock provider ps as runAt state)) =
     alertDeliveryLogs (fst state) @
       (if as = [] then []
        else [logRow runAt ps None ''push'' ''digest''
                (provider (PushDigestAttempt (searchId (search ps)) (map alertId as)))])"
  by (simp_all add: pushDigestBlock_def Let_def deliverPushDigest_store map_stamp_nil)

subsection \<open>The loop body, branch by branch\<close>

lemma searchMode_NothingPending:
  "searchMode runAt ps = NothingPending \<longleftrightarrow> pendingUniqueCount (channelPendingCounts ps) = 0"
  by (simp add: searchMode_def)

lemma searchMode_InstantDelivery:
  "searchMode runAt ps = InstantDelivery \<longleftrightarrow>
     pendingUniqueCount (channelPendingCounts ps) \<noteq> 0 \<and>
     normalizeCadence (digestCadence (search ps)) = CadenceInstant"
  by (simp add: searchMode_def)

lemma searchMode_DueDigest:
  "searchMode runAt ps = DueDigest \<longleftrightarrow>
     pendingUniqueCount (channelPendingCounts ps) \<noteq> 0 \<and>
     normalizeCadence (digestCadence (search ps)) \<noteq> CadenceInstant \<and>
     isDigestDue (normalizeCadence (digestCadence (search ps)))
       (digestHour (search ps)) (lastDigestAt (search ps)) runAt"
  by (simp add: searchMode_def)

lemma searchMode_WaitingDigest:
  "searchMode runAt ps = WaitingDigest \<longleftrightarrow>
     pendingUniqueCount (channelPendingCounts ps) \<noteq> 0 \<and>
     normalizeCadence (digestCadence (search ps)) \<noteq> CadenceInstant \<and>
     \<not> isDigestDue (normalizeCadence (digestCadence (search ps)))
         (digestHour (search ps)) (lastDigestAt (search ps)) runAt"
  by (simp add: searchMode_def)

lemma processSearch_skipped:
  assumes "searchMode runAt ps = NothingPending \<or> searchMode runAt ps = WaitingDigest"
  shows "fst (processSearch runAt provider state ps) = fst state"
  using assms
  by (auto simp: processSearch_def Let_def searchMode_NothingPending searchMode_WaitingDigest)

lemma processSearch_instant:
  assumes "searchMode runAt ps = InstantDelivery"
  shows "processSearch runAt provider state ps =
     pushInstantBlock provider ps (pushAlerts (channelPendingCounts ps)) runAt
       (inAppInstantBlock ps (inAppAlerts (channelPendingCounts ps)) runAt
          (foldl (emailInstantStep provider ps runAt)
             (fst state, (snd state)\<lparr> searchesScanned := searchesScanned (snd state) + 1 \<rparr>)
             (emailAlerts (channelPendingCounts ps))))"
  using assms
  by (simp add: processSearch_def Let_def searchMode_InstantDelivery)

lemma processSearch_digest:
  assumes "searchMode runAt ps = DueDigest"
  shows "fst (processSearch runAt provider state ps) =
     setLastDigestAt (searchId (search ps)) (getTime runAt)
       (fst (pushDigestBlock provider ps (pushAlerts (channelPendingCounts ps)) runAt
          (inAppDigestBlock ps (inAppAlerts (channelPendingCounts ps)) runAt
             (emailDigestBlock provider ps (emailAlerts (channelPendingCounts ps)) runAt
                (fst state,
                 (snd state)\<lparr> searchesScanned := searchesScanned (snd state) + 1 \<rparr>)))))"
  using assms
  by (simp add: processSearch_def Let_def searchMode_DueDigest)

lemma processSearch_jobAlerts:
  "jobAlerts (fst (processSearch runAt provider state ps)) =
     map (stamp (emailIdsMarked provider runAt ps) (inAppIdsMarked runAt ps)
            (pushIdsMarked provider runAt ps) (getTime runAt))
       (jobAlerts (fst state))"
proof (cases "searchMode runAt ps")
  case NothingPending
  then show ?thesis
    by (simp add: processSearch_skipped emailIdsMarked_def inAppIdsMarked_def
        pushIdsMarked_def map_stamp_nil)
next
  case WaitingDigest
  then show ?thesis
    by (simp add: processSearch_skipped emailIdsMarked_def inAppIdsMarked_def
        pushIdsMarked_def map_stamp_nil)
next
  case InstantDelivery
  then show ?thesis
    by (cases "pushDeferred (search ps)")
      (simp_all add: processSearch_instant pushInstantBlock_store inAppInstantBlock_store
        emailInstantLoop_store stamp_comp emailIdsMarked_def inAppIdsMarked_def
        pushIdsMarked_def emailAttemptFor_def pushAttemptFor_def)
next
  case DueDigest
  then show ?thesis
    by (simp add: processSearch_digest write_fields pushDigestBlock_store
        inAppDigestBlock_store emailDigestBlock_store stamp_comp emailIdsMarked_def
        inAppIdsMarked_def pushIdsMarked_def emailAttemptFor_def pushAttemptFor_def)
qed

lemma processSearch_logs:
  "alertDeliveryLogs (fst (processSearch runAt provider state ps)) =
     alertDeliveryLogs (fst state) @ logRowsFor provider runAt ps"
proof (cases "searchMode runAt ps")
  case NothingPending
  then show ?thesis
    by (simp add: processSearch_skipped logRowsFor_def)
next
  case WaitingDigest
  then show ?thesis
    by (simp add: processSearch_skipped logRowsFor_def)
next
  case InstantDelivery
  then show ?thesis
    by (simp add: processSearch_instant pushInstantBlock_store inAppInstantBlock_store
        emailInstantLoop_store logRowsFor_def Let_def)
next
  case DueDigest
  then show ?thesis
    by (simp add: processSearch_digest write_fields pushDigestBlock_store
        inAppDigestBlock_store emailDigestBlock_store logRowsFor_def Let_def)
qed

lemma processSearch_savedSearches:
  "savedSearches (fst (processSearch runAt provider state ps)) =
     (if searchMode runAt ps = DueDigest
      then map (\<lambda>s. if searchId s = searchId (search ps)
                     then s\<lparr> lastDigestAt := Some (getTime runAt) \<rparr> else s)
             (savedSearches (fst state))
      else savedSearches (fst state))"
proof (cases "searchMode runAt ps")
  case NothingPending
  then show ?thesis by (simp add: processSearch_skipped)
next
  case WaitingDigest
  then show ?thesis by (simp add: processSearch_skipped)
next
  case InstantDelivery
  then show ?thesis
    by (simp add: processSearch_instant pushInstantBlock_store inAppInstantBlock_store
        emailInstantLoop_store)
next
  case DueDigest
  then show ?thesis
    by (simp add: processSearch_digest write_fields pushDigestBlock_store
        inAppDigestBlock_store emailDigestBlock_store)
qed

subsection \<open>The whole loop\<close>

lemma touched_nil: "touched [] t = (\<lambda>s. s)"
  by (rule ext) (simp add: touched_def)

lemma touched_comp: "touched ids2 t \<circ> touched ids1 t = touched (ids1 @ ids2) t"
  by (rule ext) (simp add: touched_def)

lemma searchId_touched: "searchId (touched ids t s) = searchId s"
  by (simp add: touched_def)

lemma processSearch_savedSearches_touched:
  "savedSearches (fst (processSearch runAt provider state ps)) =
     map (touched (dueDigestIds runAt [ps]) (getTime runAt)) (savedSearches (fst state))"
  by (simp add: processSearch_savedSearches dueDigestIds_def touched_def touched_nil)

lemma runLoop_store:
  "jobAlerts (fst (foldl (processSearch runAt provider) state pss)) =
     map (stamp (concat (map (emailIdsMarked provider runAt) pss))
            (concat (map (inAppIdsMarked runAt) pss))
            (concat (map (pushIdsMarked provider runAt) pss)) (getTime runAt))
       (jobAlerts (fst state)) \<and>
   alertDeliveryLogs (fst (foldl (processSearch runAt provider) state pss)) =
     alertDeliveryLogs (fst state) @ concat (map (logRowsFor provider runAt) pss) \<and>
   savedSearches (fst (foldl (processSearch runAt provider) state pss)) =
     map (touched (dueDigestIds runAt pss) (getTime runAt)) (savedSearches (fst state))"
proof (induction pss arbitrary: state)
  case Nil
  show ?case by (simp add: map_stamp_nil dueDigestIds_def touched_nil)
next
  case (Cons ps pss)
  have ids: "dueDigestIds runAt (ps # pss) = dueDigestIds runAt [ps] @ dueDigestIds runAt pss"
    by (simp add: dueDigestIds_def)
  show ?case
    using Cons.IH [of "processSearch runAt provider state ps"]
    by (simp add: processSearch_jobAlerts processSearch_logs
        processSearch_savedSearches_touched stamp_comp touched_comp ids)
qed

lemma run_store:
  "jobAlerts (fst (runAlertDeliveryJob uid runAt provider store)) =
     map (stamp (concat (map (emailIdsMarked provider runAt) (fetchPendingSearches uid store)))
            (concat (map (inAppIdsMarked runAt) (fetchPendingSearches uid store)))
            (concat (map (pushIdsMarked provider runAt) (fetchPendingSearches uid store)))
            (getTime runAt))
       (jobAlerts store)"
  "alertDeliveryLogs (fst (runAlertDeliveryJob uid runAt provider store)) =
     alertDeliveryLogs store @
       concat (map (logRowsFor provider runAt) (fetchPendingSearches uid store))"
  "savedSearches (fst (runAlertDeliveryJob uid runAt provider store)) =
     map (touched (dueDigestIds runAt (fetchPendingSearches uid store)) (getTime runAt))
       (savedSearches store)"
  using runLoop_store [of runAt provider "(store, emptySummary)" "fetchPendingSearches uid store"]
  by (simp_all add: runAlertDeliveryJob_def)

subsection \<open>Fetched searches and unique keys\<close>

lemma fetched_alerts_in_store:
  assumes "ps \<in> set (fetchPendingSearches uid store)" and "a \<in> set (alerts ps)"
  shows "a \<in> set (jobAlerts store)" and "alertSavedSearchId a = searchId (search ps)"
  using assms by (auto simp: fetched_iff withPendingAlerts_def)

lemma pending_subset_alerts:
  "set (emailAlerts (channelPendingCounts ps)) \<subseteq> set (alerts ps)"
  "set (inAppAlerts (channelPendingCounts ps)) \<subseteq> set (alerts ps)"
  "set (pushAlerts (channelPendingCounts ps)) \<subseteq> set (alerts ps)"
  by (auto simp: channelPendingCounts_def Let_def)

lemma fetched_distinct_ids:
  assumes "uniqueKeys store"
  shows "distinct (map (\<lambda>ps. searchId (search ps)) (fetchPendingSearches uid store))"
proof -
  have "map (\<lambda>ps. searchId (search ps)) (fetchPendingSearches uid store) =
      map searchId (filter (selectedSearch uid) (savedSearches store))"
    by (simp add: fetchPendingSearches_def comp_def withPendingAlerts_def)
  then show ?thesis
    using assms by (simp add: uniqueKeys_def distinct_map_filter)
qed

lemma fetched_same_id:
  assumes "uniqueKeys store"
    and "ps \<in> set (fetchPendingSearches uid store)"
    and "ps' \<in> set (fetchPendingSearches uid store)"
    and "searchId (search ps') = searchId (search ps)"
  shows "ps' = ps"
proof -
  have "inj_on (\<lambda>ps. searchId (search ps)) (set (fetchPendingSearches uid store))"
    using fetched_distinct_ids [OF assms(1), of uid] by (simp add: distinct_map)
  then show ?thesis
    using assms(2-4) by (auto dest: inj_onD)
qed

lemma store_alert_same_id:
  assumes "uniqueKeys store"
    and "a \<in> set (jobAlerts store)" and "a' \<in> set (jobAlerts store)"
    and "alertId a' = alertId a"
  shows "a' = a"
proof -
  have "inj_on alertId (set (jobAlerts store))"
    using assms(1) by (simp add: uniqueKeys_def distinct_map)
  then show ?thesis
    using assms(2-4) by (auto dest: inj_onD)
qed

text \<open>An alert's id occurs among the fetched alerts of its own search only.\<close>

lemma alert_id_owner:
  assumes keys: "uniqueKeys store"
    and ps: "ps \<in> set (fetchPendingSearches uid store)"
    and a: "a \<in> set (alerts ps)"
    and ps': "ps' \<in> set (fetchPendingSearches uid store)"
    and a': "a' \<in> set (alerts ps')"
    and same: "alertId a' = alertId a"
  shows "ps' = ps" and "a' = a"
proof -
  show eq: "a' = a"
    using store_alert_same_id [OF keys fetched_alerts_in_store(1) [OF ps a]
        fetched_alerts_in_store(1) [OF ps' a'] same] .
  have "searchId (search ps') = searchId (search ps)"
    using fetched_alerts_in_store(2) [OF ps a] fetched_alerts_in_store(2) [OF ps' a'] eq
    by simp
  then show "ps' = ps"
    by (rule fetched_same_id [OF keys ps ps'])
qed

subsection \<open>One alert across the run\<close>

lemma find_by_key:
  assumes "distinct (map k xs)" and "x \<in> set xs"
  shows "find (\<lambda>y. k y = k x) xs = Some x"
  using assms by (induction xs) (auto simp: rev_image_eqI)

lemma find_map_comp: "find P (map f xs) = map_option f (find (P \<circ> f) xs)"
  by (induction xs) simp_all

lemma alertById_in_store:
  assumes "uniqueKeys store" and "a \<in> set (jobAlerts store)"
  shows "alertById store (alertId a) = Some a"
  using assms by (simp add: alertById_def uniqueKeys_def find_by_key)

lemma searchById_in_store:
  assumes "uniqueKeys store" and "s \<in> set (savedSearches store)"
  shows "searchById store (searchId s) = Some s"
  using assms by (simp add: searchById_def uniqueKeys_def find_by_key)

lemma emailAttemptFor_same_id:
  "alertId a' = alertId a \<Longrightarrow> emailAttemptFor runAt ps a' = emailAttemptFor runAt ps a"
  by (simp add: emailAttemptFor_def)

lemma pushAttemptFor_same_id:
  "alertId a' = alertId a \<Longrightarrow> pushAttemptFor runAt ps a' = pushAttemptFor runAt ps a"
  by (simp add: pushAttemptFor_def)

lemma channelPendingCounts_fields:
  "emailAlerts (channelPendingCounts ps) =
     (if emailEnabled (search ps) then filter (\<lambda>a. emailSentAt a = None) (alerts ps) else [])"
  "inAppAlerts (channelPendingCounts ps) =
     (if inAppEnabled (search ps) then filter (\<lambda>a. inAppSentAt a = None) (alerts ps) else [])"
  "pushAlerts (channelPendingCounts ps) =
     (if pushEnabled (search ps) then filter (\<lambda>a. pushSentAt a = None) (alerts ps) else [])"
  by (simp_all add: channelPendingCounts_def Let_def)

lemma marked_ids_from_alerts:
  "set (emailIdsMarked provider runAt ps) \<subseteq> alertId ` set (alerts ps)"
  "set (inAppIdsMarked runAt ps) \<subseteq> alertId ` set (alerts ps)"
  "set (pushIdsMarked provider runAt ps) \<subseteq> alertId ` set (alerts ps)"
proof -
  have "set (emailIdsMarked provider runAt ps) \<subseteq>
      alertId ` set (emailAlerts (channelPendingCounts ps))"
    unfolding emailIdsMarked_def by (cases "searchMode runAt ps") auto
  then show "set (emailIdsMarked provider runAt ps) \<subseteq> alertId ` set (alerts ps)"
    using pending_subset_alerts(1) [of ps] by blast
  have "set (inAppIdsMarked runAt ps) \<subseteq>
      alertId ` set (inAppAlerts (channelPendingCounts ps))"
    unfolding inAppIdsMarked_def by (cases "searchMode runAt ps") auto
  then show "set (inAppIdsMarked runAt ps) \<subseteq> alertId ` set (alerts ps)"
    using pending_subset_alerts(2) [of ps] by blast
  have "set (pushIdsMarked provider runAt ps) \<subseteq>
      alertId ` set (pushAlerts (channelPendingCounts ps))"
    unfolding pushIdsMarked_def by (cases "searchMode runAt ps") auto
  then show "set (pushIdsMarked provider runAt ps) \<subseteq> alertId ` set (alerts ps)"
    using pending_subset_alerts(3) [of ps] by blast
qed

text \<open>
  Among the ids that the whole run marks, an alert's id is marked exactly when its own
  search marks it.
\<close>

lemma marked_by_own_search:
  assumes keys: "uniqueKeys store"
    and ps: "ps \<in> set (fetchPendingSearches uid store)"
    and a: "a \<in> set (alerts ps)"
    and sub: "\<And>ps'. set (f ps') \<subseteq> alertId ` set (alerts ps')"
  shows "alertId a \<in> set (concat (map f (fetchPendingSearches uid store))) \<longleftrightarrow>
           alertId a \<in> set (f ps)"
proof
  assume "alertId a \<in> set (concat (map f (fetchPendingSearches uid store)))"
  then obtain ps' where ps': "ps' \<in> set (fetchPendingSearches uid store)"
    and "alertId a \<in> set (f ps')"
    by auto
  then obtain a' where a': "a' \<in> set (alerts ps')" and same: "alertId a' = alertId a"
    using sub [of ps'] by auto
  have "ps' = ps"
    by (rule alert_id_owner(1) [OF keys ps a ps' a' same])
  with \<open>alertId a \<in> set (f ps')\<close> show "alertId a \<in> set (f ps)"
    by simp
next
  assume "alertId a \<in> set (f ps)"
  with ps show "alertId a \<in> set (concat (map f (fetchPendingSearches uid store)))"
    by auto
qed

lemma run_alert:
  assumes keys: "uniqueKeys store"
    and ps: "ps \<in> set (fetchPendingSearches uid store)"
    and a: "a \<in> set (alerts ps)"
  shows "alertById (fst (runAlertDeliveryJob uid runAt provider store)) (alertId a) =
     Some (stamp (emailIdsMarked provider runAt ps) (inAppIdsMarked runAt ps)
             (pushIdsMarked provider runAt ps) (getTime runAt) a)"
proof -
  let ?pss = "fetchPendingSearches uid store"
  let ?F = "stamp (concat (map (emailIdsMarked provider runAt) ?pss))
      (concat (map (inAppIdsMarked runAt) ?pss))
      (concat (map (pushIdsMarked provider runAt) ?pss)) (getTime runAt)"
  have inStore: "a \<in> set (jobAlerts store)"
    by (rule fetched_alerts_in_store(1) [OF ps a])
  have "(\<lambda>x. alertId x = alertId a) \<circ> ?F = (\<lambda>x. alertId x = alertId a)"
    by (rule ext) (simp add: alertId_stamp)
  then have "alertById (fst (runAlertDeliveryJob uid runAt provider store)) (alertId a) =
      map_option ?F (alertById store (alertId a))"
    by (simp add: alertById_def run_store(1) find_map_comp)
  also have "\<dots> = Some (?F a)"
    by (simp add: alertById_in_store [OF keys inStore])
  also have "?F a = stamp (emailIdsMarked provider runAt ps) (inAppIdsMarked runAt ps)
      (pushIdsMarked provider runAt ps) (getTime runAt) a"
    using marked_by_own_search [OF keys ps a, of "emailIdsMarked provider runAt"]
      marked_by_own_search [OF keys ps a, of "inAppIdsMarked runAt"]
      marked_by_own_search [OF keys ps a, of "pushIdsMarked provider runAt"]
      marked_ids_from_alerts
    by (simp add: stamp_def)
  finally show ?thesis .
qed

lemma email_marked_iff:
  assumes a: "a \<in> set (emailAlerts (channelPendingCounts ps))"
    and mode: "searchMode runAt ps = InstantDelivery \<or> searchMode runAt ps = DueDigest"
  shows "alertId a \<in> set (emailIdsMarked provider runAt ps) \<longleftrightarrow>
           provider (emailAttemptFor runAt ps a)"
proof
  assume "alertId a \<in> set (emailIdsMarked provider runAt ps)"
  then have "alertId a \<in> alertId ` {a' \<in> set (emailAlerts (channelPendingCounts ps)).
      provider (emailAttemptFor runAt ps a')}"
    using mode by (simp add: emailIdsMarked_def)
  then obtain a' where "provider (emailAttemptFor runAt ps a')" and "alertId a' = alertId a"
    by auto
  then show "provider (emailAttemptFor runAt ps a)"
    using emailAttemptFor_same_id [of a' a runAt ps] by simp
next
  assume "provider (emailAttemptFor runAt ps a)"
  with a have "a \<in> {a' \<in> set (emailAlerts (channelPendingCounts ps)).
      provider (emailAttemptFor runAt ps a')}"
    by simp
  then have "alertId a \<in> alertId ` {a' \<in> set (emailAlerts (channelPendingCounts ps)).
      provider (emailAttemptFor runAt ps a')}"
    by (rule imageI)
  then show "alertId a \<in> set (emailIdsMarked provider runAt ps)"
    using mode by (simp add: emailIdsMarked_def)
qed

lemma push_marked_iff:
  assumes a: "a \<in> set (pushAlerts (channelPendingCounts ps))"
    and mode: "searchMode runAt ps = InstantDelivery \<or> searchMode runAt ps = DueDigest"
  shows "alertId a \<in> set (pushIdsMarked provider runAt ps) \<longleftrightarrow>
           provider (pushAttemptFor runAt ps a)"
proof
  assume "alertId a \<in> set (pushIdsMarked provider runAt ps)"
  then have "alertId a \<in> alertId ` {a' \<in> set (pushAlerts (channelPendingCounts ps)).
      provider (pushAttemptFor runAt ps a')}"
    using mode by (simp add: pushIdsMarked_def)
  then obtain a' where "provider (pushAttemptFor runAt ps a')" and "alertId a' = alertId a"
    by auto
  then show "provider (pushAttemptFor runAt ps a)"
    using pushAttemptFor_same_id [of a' a runAt ps] by simp
next
  assume "provider (pushAttemptFor runAt ps a)"
  with a have "a \<in> {a' \<in> set (pushAlerts (channelPendingCounts ps)).
      provider (pushAttemptFor runAt ps a')}"
    by simp
  then have "alertId a \<in> alertId ` {a' \<in> set (pushAlerts (channelPendingCounts ps)).
      provider (pushAttemptFor runAt ps a')}"
    by (rule imageI)
  then show "alertId a \<in> set (pushIdsMarked provider runAt ps)"
    using mode by (simp add: pushIdsMarked_def)
qed

lemma inApp_marked:
  assumes "a \<in> set (inAppAlerts (channelPendingCounts ps))"
    and "searchMode runAt ps = InstantDelivery \<or> searchMode runAt ps = DueDigest"
  shows "alertId a \<in> set (inAppIdsMarked runAt ps)"
  using assms by (simp add: inAppIdsMarked_def)

lemma pending_unsent:
  "a \<in> set (emailAlerts (channelPendingCounts ps)) \<Longrightarrow> emailSentAt a = None"
  "a \<in> set (inAppAlerts (channelPendingCounts ps)) \<Longrightarrow> inAppSentAt a = None"
  "a \<in> set (pushAlerts (channelPendingCounts ps)) \<Longrightarrow> pushSentAt a = None"
  by (simp_all add: channelPendingCounts_fields split: if_splits)

subsection \<open>The store after the run\<close>

lemma run_uniqueKeys:
  assumes "uniqueKeys store"
  shows "uniqueKeys (fst (runAlertDeliveryJob uid runAt provider store))"
proof -
  have "map searchId (savedSearches (fst (runAlertDeliveryJob uid runAt provider store))) =
      map searchId (savedSearches store)"
    by (simp add: run_store(3) comp_def searchId_touched)
  moreover have "map alertId (jobAlerts (fst (runAlertDeliveryJob uid runAt provider store))) =
      map alertId (jobAlerts store)"
    by (simp add: run_store(1) comp_def alertId_stamp)
  ultimately show ?thesis
    using assms by (simp add: uniqueKeys_def)
qed

lemma touched_fields:
  "searchUserId (touched ids t s) = searchUserId s"
  "digestCadence (touched ids t s) = digestCadence s"
  "digestHour (touched ids t s) = digestHour s"
  "emailEnabled (touched ids t s) = emailEnabled s"
  "inAppEnabled (touched ids t s) = inAppEnabled s"
  "pushEnabled (touched ids t s) = pushEnabled s"
  "pushDeferred (touched ids t s) = pushDeferred s"
  "lastDigestAt (touched ids t s) = (if searchId s \<in> set ids then Some t else lastDigestAt s)"
  by (simp_all add: touched_def)



text \<open>Every entry fetched after the run for the id of a search fetched before is that one.\<close>

lemma fetched_after_run:
  assumes keys: "uniqueKeys store"
    and ps: "ps \<in> set (fetchPendingSearches uid store)"
    and ps2: "ps2 \<in> set (fetchPendingSearches uid2 (fst (runAlertDeliveryJob uid runAt provider store)))"
    and same: "searchId (search ps2) = searchId (search ps)"
  shows "ps2 = withPendingAlerts (fst (runAlertDeliveryJob uid runAt provider store))
           (touched (dueDigestIds runAt (fetchPendingSearches uid store)) (getTime runAt)
              (search ps))"
proof -
  let ?store' = "fst (runAlertDeliveryJob uid runAt provider store)"
  let ?touch = "touched (dueDigestIds runAt (fetchPendingSearches uid store)) (getTime runAt)"
  from ps2 obtain s' where s': "s' \<in> set (savedSearches ?store')"
    and ps2_eq: "ps2 = withPendingAlerts ?store' s'"
    by (auto simp: fetched_iff)
  from s' obtain s where s: "s \<in> set (savedSearches store)" and s'_eq: "s' = ?touch s"
    by (auto simp: run_store(3))
  have "searchId s = searchId (search ps)"
    using same by (simp add: ps2_eq s'_eq withPendingAlerts_def searchId_touched)
  moreover have "inj_on searchId (set (savedSearches store))"
    using keys by (simp add: uniqueKeys_def distinct_map)
  ultimately have "s = search ps"
    using s fetched_search_in_store [OF ps] by (auto dest: inj_onD)
  then show ?thesis
    by (simp add: ps2_eq s'_eq)
qed

lemma stamp_fields:
  "emailSentAt (stamp es is ps t a) = (if alertId a \<in> set es then Some t else emailSentAt a)"
  "inAppSentAt (stamp es is ps t a) = (if alertId a \<in> set is then Some t else inAppSentAt a)"
  "pushSentAt (stamp es is ps t a) = (if alertId a \<in> set ps then Some t else pushSentAt a)"
  by (simp_all add: stamp_def)




lemma pending_mode_instant:
  assumes "normalizeCadence (digestCadence (search ps)) = CadenceInstant"
    and "a \<in> set (emailAlerts (channelPendingCounts ps)) \<or>
         a \<in> set (inAppAlerts (channelPendingCounts ps)) \<or>
         a \<in> set (pushAlerts (channelPendingCounts ps))"
  shows "searchMode runAt ps = InstantDelivery"
proof -
  have "pendingUniqueCount (channelPendingCounts ps) \<noteq> 0"
    using assms(2) pendingUniqueCount_zero [of ps] by auto
  then show ?thesis
    using assms(1) by (simp add: searchMode_InstantDelivery)
qed

subsection \<open>Log rows of one search\<close>

lemma logRowsFor_search:
  "r \<in> set (logRowsFor provider runAt ps) \<Longrightarrow> logSavedSearchId r = searchId (search ps)"
  by (cases "searchMode runAt ps")
    (auto simp: logRowsFor_def logRow_def Let_def split: if_splits)

lemma logRowsFor_in_app_instant:
  assumes "searchMode runAt ps = InstantDelivery"
  shows "filter (\<lambda>r. logSavedSearchId r = searchId (search ps) \<and> logChannel r = ''in_app'')
           (logRowsFor provider runAt ps) =
         map (\<lambda>a. logRow runAt ps (Some (alertId a)) ''in_app'' ''instant'' True)
           (inAppAlerts (channelPendingCounts ps))"
proof -
  have email: "filter (\<lambda>r. logSavedSearchId r = searchId (search ps) \<and> logChannel r = ''in_app'')
      (map (\<lambda>a. logRow runAt ps (Some (alertId a)) ''email'' ''instant'' (ok a)) as) = []"
    for ok as
    by (simp add: logRow_def filter_empty_conv)
  have push: "filter (\<lambda>r. logSavedSearchId r = searchId (search ps) \<and> logChannel r = ''in_app'')
      (map (\<lambda>a. logRow runAt ps (Some (alertId a)) ''push'' ''instant'' (ok a)) as) = []"
    for ok as
    by (simp add: logRow_def filter_empty_conv)
  have inApp: "filter (\<lambda>r. logSavedSearchId r = searchId (search ps) \<and> logChannel r = ''in_app'')
      (map (\<lambda>a. logRow runAt ps (Some (alertId a)) ''in_app'' ''instant'' True) as) =
      map (\<lambda>a. logRow runAt ps (Some (alertId a)) ''in_app'' ''instant'' True) as"
    for as
    by (simp add: logRow_def filter_id_conv)
  have batch: "logChannel (logRow runAt ps None ''push'' ''digest'' ok) \<noteq> ''in_app''" for ok
    by (simp add: logRow_def)
  show ?thesis
    using assms batch
    by (simp add: logRowsFor_def Let_def email push inApp)
qed

lemma concat_only_one:
  assumes "distinct (map k xs)" and "x \<in> set xs"
    and "\<And>y. y \<in> set xs \<Longrightarrow> k y \<noteq> k x \<Longrightarrow> f y = []"
  shows "concat (map f xs) = f x"
  using assms
proof (induction xs)
  case Nil
  then show ?case by simp
next
  case (Cons y ys)
  have fresh: "k y \<notin> k ` set ys"
    using Cons.prems(1) by simp
  show ?case
  proof (cases "y = x")
    case True
    have "f z = []" if "z \<in> set ys" for z
    proof -
      have "k z \<in> k ` set ys"
        using that by (rule imageI)
      then have "k z \<noteq> k x"
        using fresh True by auto
      then show ?thesis
        using Cons.prems(3) [of z] that by simp
    qed
    then have "concat (map f ys) = []"
      by simp
    with True show ?thesis by simp
  next
    case False
    then have x: "x \<in> set ys"
      using Cons.prems(2) by simp
    then have "k x \<in> k ` set ys"
      by (rule imageI)
    then have "k y \<noteq> k x"
      using fresh by auto
    then have "f y = []"
      using Cons.prems(3) [of y] by simp
    moreover have "concat (map f ys) = f x"
      using Cons.IH Cons.prems(1,3) x by simp
    ultimately show ?thesis by simp
  qed
qed

lemma run_logs_of_search:
  assumes keys: "uniqueKeys store"
    and ps: "ps \<in> set (fetchPendingSearches uid store)"
  shows "filter (\<lambda>r. logSavedSearchId r = searchId (search ps) \<and> P r)
           (concat (map (logRowsFor provider runAt) (fetchPendingSearches uid store))) =
         filter (\<lambda>r. logSavedSearchId r = searchId (search ps) \<and> P r)
           (logRowsFor provider runAt ps)"
proof -
  let ?Q = "\<lambda>r. logSavedSearchId r = searchId (search ps) \<and> P r"
  have "concat (map (\<lambda>ps'. filter ?Q (logRowsFor provider runAt ps'))
      (fetchPendingSearches uid store)) = filter ?Q (logRowsFor provider runAt ps)"
  proof (rule concat_only_one [where k = "\<lambda>ps. searchId (search ps)"])
    show "distinct (map (\<lambda>ps. searchId (search ps)) (fetchPendingSearches uid store))"
      by (rule fetched_distinct_ids [OF keys])
    show "ps \<in> set (fetchPendingSearches uid store)"
      by (rule ps)
    show "filter ?Q (logRowsFor provider runAt ps') = []"
      if "searchId (search ps') \<noteq> searchId (search ps)" for ps'
      using that logRowsFor_search [of _ provider runAt ps']
      by (auto simp: filter_empty_conv)
  qed
  then show ?thesis
    by (simp add: filter_concat comp_def)
qed

section \<open>Properties of alert delivery: timestamps, log rows and digests\<close>




text \<open>
  C6, as the code has it. In a run over a store with unique keys, an instant-cadence search
  with n pending in-app alerts, n at least 1, has all n alerts marked sent on the in-app
  channel at the run time, and the run appends n delivery-log rows for that search and
  channel, one per alert in the order of the alerts, each of kind \<open>instant\<close> and accepted.
  The rows are written by one \<open>createMany\<close>, but they are n rows, not one.
\<close>

theorem instant_in_app_marks_and_logs:
  assumes "uniqueKeys store"
    and "ps \<in> set (fetchPendingSearches uid store)"
    and "normalizeCadence (digestCadence (search ps)) = CadenceInstant"
    and "inAppAlerts (channelPendingCounts ps) \<noteq> []"
  shows
    "(\<forall>a \<in> set (inAppAlerts (channelPendingCounts ps)).
        \<exists>a'. alertById (fst (runAlertDeliveryJob uid runAt provider store)) (alertId a) = Some a' \<and>
             inAppSentAt a' = Some (getTime runAt)) \<and>
     (\<exists>rows. alertDeliveryLogs (fst (runAlertDeliveryJob uid runAt provider store)) =
               alertDeliveryLogs store @ rows \<and>
             filter (\<lambda>r. logSavedSearchId r = searchId (search ps) \<and> logChannel r = ''in_app'')
               rows =
             map (\<lambda>a. \<lparr> logUserId = searchUserId (search ps),
                         logAlertId = Some (alertId a),
                         logSavedSearchId = searchId (search ps),
                         logChannel = ''in_app'',
                         logKind = ''instant'',
                         logAccepted = True,
                         logDeliveredAt = getTime runAt \<rparr>)
               (inAppAlerts (channelPendingCounts ps)) \<and>
             length (filter (\<lambda>r. logSavedSearchId r = searchId (search ps) \<and>
                                  logChannel r = ''in_app'') rows) =
               length (inAppAlerts (channelPendingCounts ps)))"
proof -
  let ?store' = "fst (runAlertDeliveryJob uid runAt provider store)"
  let ?rows = "concat (map (logRowsFor provider runAt) (fetchPendingSearches uid store))"
  obtain b where b: "b \<in> set (inAppAlerts (channelPendingCounts ps))"
    using assms(4) by (cases "inAppAlerts (channelPendingCounts ps)") auto
  have mode: "searchMode runAt ps = InstantDelivery"
    using assms(3) b by (intro pending_mode_instant) auto
  have marked: "\<exists>a'. alertById ?store' (alertId a) = Some a' \<and>
      inAppSentAt a' = Some (getTime runAt)"
    if a: "a \<in> set (inAppAlerts (channelPendingCounts ps))" for a
  proof -
    have member: "a \<in> set (alerts ps)"
      using a pending_subset_alerts(2) [of ps] by blast
    have "alertId a \<in> set (inAppIdsMarked runAt ps)"
      using a mode by (intro inApp_marked) auto
    then show ?thesis
      using run_alert [OF assms(1,2) member, of runAt provider]
      by (simp add: stamp_fields)
  qed
  have logs: "alertDeliveryLogs ?store' = alertDeliveryLogs store @ ?rows"
    by (rule run_store(2))
  have own: "filter (\<lambda>r. logSavedSearchId r = searchId (search ps) \<and> logChannel r = ''in_app'')
      ?rows =
      map (\<lambda>a. logRow runAt ps (Some (alertId a)) ''in_app'' ''instant'' True)
        (inAppAlerts (channelPendingCounts ps))"
    using run_logs_of_search [OF assms(1,2), of "\<lambda>r. logChannel r = ''in_app''" provider runAt]
      logRowsFor_in_app_instant [OF mode, of provider]
    by simp
  have "filter (\<lambda>r. logSavedSearchId r = searchId (search ps) \<and> logChannel r = ''in_app'')
      ?rows =
      map (\<lambda>a. \<lparr> logUserId = searchUserId (search ps),
                  logAlertId = Some (alertId a),
                  logSavedSearchId = searchId (search ps),
                  logChannel = ''in_app'',
                  logKind = ''instant'',
                  logAccepted = True,
                  logDeliveredAt = getTime runAt \<rparr>)
        (inAppAlerts (channelPendingCounts ps))"
    unfolding own by (simp add: logRow_def)
  then show ?thesis
    using marked logs by (intro conjI exI [of _ ?rows] ballI) simp_all
qed

theorem instant_in_app_marks_and_logs_witness:
  "uniqueKeys instantStore \<and>
   inAppAlerts (channelPendingCounts (withPendingAlerts instantStore instantSearch)) =
     [unsentAlert 21 2, unsentAlert 22 2] \<and>
   (\<exists>a'. alertById (fst (runAlertDeliveryJob None tenOClock (\<lambda>a. True) instantStore)) 21 =
           Some a' \<and> inAppSentAt a' = Some 1000000000) \<and>
   (\<exists>a'. alertById (fst (runAlertDeliveryJob None tenOClock (\<lambda>a. True) instantStore)) 22 =
           Some a' \<and> inAppSentAt a' = Some 1000000000) \<and>
   length (filter (\<lambda>r. logSavedSearchId r = 2 \<and> logChannel r = ''in_app'')
     (alertDeliveryLogs (fst (runAlertDeliveryJob None tenOClock (\<lambda>a. True) instantStore)))) = 2"
proof -
  let ?ps = "withPendingAlerts instantStore instantSearch"
  let ?store' = "fst (runAlertDeliveryJob None tenOClock (\<lambda>a. True) instantStore)"
  have keys: "uniqueKeys instantStore"
    by (simp add: uniqueKeys_def instantStore_def unsentAlert_def)
  have fetched: "?ps \<in> set (fetchPendingSearches None instantStore)"
    by (simp add: fetched_iff selectedSearch_def instantStore_def instantSearch_def)
  have pending: "inAppAlerts (channelPendingCounts ?ps) = [unsentAlert 21 2, unsentAlert 22 2]"
    by (simp add: channelPendingCounts_fields withPendingAlerts_def instantStore_def
        instantSearch_def unsentAlert_def)
  have cadence: "normalizeCadence (digestCadence (search ?ps)) = CadenceInstant"
    by (simp add: withPendingAlerts_def instantSearch_def normalizeCadence_def)
  have some: "inAppAlerts (channelPendingCounts ?ps) \<noteq> []"
    by (simp add: pending)
  have sid: "searchId (search ?ps) = 2"
    by (simp add: withPendingAlerts_def instantSearch_def)
  have ids: "alertId (unsentAlert 21 2) = 21" "alertId (unsentAlert 22 2) = 22"
    by (simp_all add: unsentAlert_def)
  have before: "alertDeliveryLogs instantStore = []"
    by (simp add: instantStore_def)
  have time: "getTime tenOClock = 1000000000"
    by (simp add: tenOClock_def)
  note run = instant_in_app_marks_and_logs [OF keys fetched cadence some, of tenOClock "\<lambda>a. True"]
  have marked: "(\<exists>a'. alertById ?store' 21 = Some a' \<and> inAppSentAt a' = Some 1000000000) \<and>
      (\<exists>a'. alertById ?store' 22 = Some a' \<and> inAppSentAt a' = Some 1000000000)"
    using run [THEN conjunct1] by (simp add: pending ids time)
  have rows: "length (filter (\<lambda>r. logSavedSearchId r = 2 \<and> logChannel r = ''in_app'')
      (alertDeliveryLogs ?store')) = 2"
    using run [THEN conjunct2] by (auto simp: pending sid before)
  show ?thesis
    using keys pending marked rows by simp
qed

text \<open>
  C6 as stated fails: the instant search with two pending in-app alerts gets two
  delivery-log rows, not one.
\<close>

theorem instant_in_app_log_counterexample:
  "length (alertDeliveryLogs (fst (runAlertDeliveryJob None tenOClock (\<lambda>a. True) instantStore))) = 2"
  unfolding instantStore_def instantSearch_def unsentAlert_def tenOClock_def
  by code_simp

text \<open>
  C10. In a run over a store with unique keys, a fetched digest search that is due and has
  something pending has its \<open>lastDigestAt\<close> set to the run time, whatever the provider
  answers; the email and push alerts of rejected attempts keep a null timestamp. In any
  later run whose time is less than the cadence interval (24 hours, or 168 for weekly)
  after this run, the loop body finds the search not due: it leaves the store as it is and
  attempts no delivery for it.
\<close>

theorem due_digest_advances_lastDigestAt:
  assumes "uniqueKeys store"
    and "ps \<in> set (fetchPendingSearches uid store)"
    and "searchMode runAt ps = DueDigest"
  shows
    "(\<exists>s'. searchById (fst (runAlertDeliveryJob uid runAt provider store))
             (searchId (search ps)) = Some s' \<and>
           lastDigestAt s' = Some (getTime runAt)) \<and>
     (\<forall>a \<in> set (emailAlerts (channelPendingCounts ps)).
        \<not> provider (emailAttemptFor runAt ps a) \<longrightarrow>
        (\<exists>a'. alertById (fst (runAlertDeliveryJob uid runAt provider store)) (alertId a) = Some a' \<and>
              emailSentAt a' = None)) \<and>
     (\<forall>a \<in> set (pushAlerts (channelPendingCounts ps)).
        \<not> provider (pushAttemptFor runAt ps a) \<longrightarrow>
        (\<exists>a'. alertById (fst (runAlertDeliveryJob uid runAt provider store)) (alertId a) = Some a' \<and>
              pushSentAt a' = None)) \<and>
     (\<forall>uid2 ps2 runAt2 provider2 state.
        ps2 \<in> set (fetchPendingSearches uid2 (fst (runAlertDeliveryJob uid runAt provider store))) \<and>
        searchId (search ps2) = searchId (search ps) \<and>
        getTime runAt2 - getTime runAt <
          cadenceIntervalHours (normalizeCadence (digestCadence (search ps))) * (1000 * 60 * 60) \<longrightarrow>
        fst (processSearch runAt2 provider2 state ps2) = fst state \<and>
        attemptedDeliveries (snd (processSearch runAt2 provider2 state ps2)) =
          attemptedDeliveries (snd state))"
proof -
  let ?store' = "fst (runAlertDeliveryJob uid runAt provider store)"
  let ?ids = "dueDigestIds runAt (fetchPendingSearches uid store)"
  let ?s' = "touched ?ids (getTime runAt) (search ps)"
  let ?after = "stamp (emailIdsMarked provider runAt ps) (inAppIdsMarked runAt ps)
      (pushIdsMarked provider runAt ps) (getTime runAt)"
  have mode: "searchMode runAt ps = InstantDelivery \<or> searchMode runAt ps = DueDigest"
    using assms(3) by simp
  have due: "searchId (search ps) \<in> set ?ids"
    using assms(2,3) by (auto simp: dueDigestIds_def)
  have last: "lastDigestAt ?s' = Some (getTime runAt)"
    using due by (simp add: touched_fields)
  have "?s' \<in> set (savedSearches ?store')"
    using fetched_search_in_store [OF assms(2)] by (simp add: run_store(3))
  then have "searchById ?store' (searchId ?s') = Some ?s'"
    by (rule searchById_in_store [OF run_uniqueKeys [OF assms(1)]])
  then have found: "searchById ?store' (searchId (search ps)) = Some ?s'"
    by (simp add: searchId_touched)
  have email: "\<exists>a'. alertById ?store' (alertId a) = Some a' \<and> emailSentAt a' = None"
    if a: "a \<in> set (emailAlerts (channelPendingCounts ps))"
      and rejected: "\<not> provider (emailAttemptFor runAt ps a)" for a
  proof -
    have member: "a \<in> set (alerts ps)"
      using a pending_subset_alerts(1) [of ps] by blast
    have "emailSentAt (?after a) = None"
      using email_marked_iff [OF a mode, of provider] pending_unsent(1) [OF a] rejected
      by (simp add: stamp_fields)
    then show ?thesis
      using run_alert [OF assms(1,2) member, of runAt provider] by simp
  qed
  have push: "\<exists>a'. alertById ?store' (alertId a) = Some a' \<and> pushSentAt a' = None"
    if a: "a \<in> set (pushAlerts (channelPendingCounts ps))"
      and rejected: "\<not> provider (pushAttemptFor runAt ps a)" for a
  proof -
    have member: "a \<in> set (alerts ps)"
      using a pending_subset_alerts(3) [of ps] by blast
    have "pushSentAt (?after a) = None"
      using push_marked_iff [OF a mode, of provider] pending_unsent(3) [OF a] rejected
      by (simp add: stamp_fields)
    then show ?thesis
      using run_alert [OF assms(1,2) member, of runAt provider] by simp
  qed
  have later: "fst (processSearch runAt2 provider2 state ps2) = fst state \<and>
      attemptedDeliveries (snd (processSearch runAt2 provider2 state ps2)) =
        attemptedDeliveries (snd state)"
    if ps2: "ps2 \<in> set (fetchPendingSearches uid2 ?store')"
      and same: "searchId (search ps2) = searchId (search ps)"
      and early: "getTime runAt2 - getTime runAt <
        cadenceIntervalHours (normalizeCadence (digestCadence (search ps))) * (1000 * 60 * 60)"
    for uid2 ps2 runAt2 provider2 state
  proof -
    have "ps2 = withPendingAlerts ?store' ?s'"
      by (rule fetched_after_run [OF assms(1,2) ps2 same])
    then have search2: "search ps2 = ?s'"
      by (simp add: withPendingAlerts_def)
    have cadence: "normalizeCadence (digestCadence (search ps2)) \<noteq> CadenceInstant"
      using assms(3) by (simp add: search2 touched_fields searchMode_DueDigest)
    have "(of_int (getTime runAt2 - getTime runAt) :: rat) <
        of_int (cadenceIntervalHours (normalizeCadence (digestCadence (search ps))) *
          (1000 * 60 * 60))"
      using early by (simp only: of_int_less_iff)
    then have "(of_int (getTime runAt2 - getTime runAt) / (1000 * 60 * 60) :: rat) <
        of_int (cadenceIntervalHours (normalizeCadence (digestCadence (search ps))))"
      by (simp add: field_simps)
    then have notDue: "\<not> isDigestDue (normalizeCadence (digestCadence (search ps2)))
        (digestHour (search ps2)) (lastDigestAt (search ps2)) runAt2"
      by (simp add: isDigestDue_def Let_def search2 last touched_fields(2))
    have skipped: "searchMode runAt2 ps2 = NothingPending \<or> searchMode runAt2 ps2 = WaitingDigest"
      using cadence notDue by (simp add: searchMode_def)
    then have "attemptsFor runAt2 ps2 = 0"
      by (auto simp: attemptsFor_def)
    then show ?thesis
      using processSearch_skipped [OF skipped, of provider2 state]
        processSearch_counters [of runAt2 provider2 state ps2]
      by simp
  qed
  show ?thesis
    using found last email push later by blast
qed

theorem due_digest_advances_lastDigestAt_witness:
  "uniqueKeys digestStore \<and>
   withPendingAlerts digestStore dailySearch \<in> set (fetchPendingSearches None digestStore) \<and>
   searchMode tenOClock (withPendingAlerts digestStore dailySearch) = DueDigest \<and>
   (\<exists>s'. searchById (fst (runAlertDeliveryJob None tenOClock (\<lambda>a. False) digestStore)) 1 =
           Some s' \<and> lastDigestAt s' = Some 1000000000) \<and>
   (\<exists>a'. alertById (fst (runAlertDeliveryJob None tenOClock (\<lambda>a. False) digestStore)) 11 =
           Some a' \<and> emailSentAt a' = None) \<and>
   attemptedDeliveries (snd (runAlertDeliveryJob None elevenOClock (\<lambda>a. True)
     (fst (runAlertDeliveryJob None tenOClock (\<lambda>a. False) digestStore)))) = 0"
proof -
  let ?ps = "withPendingAlerts digestStore dailySearch"
  let ?store' = "fst (runAlertDeliveryJob None tenOClock (\<lambda>a. False) digestStore)"
  have keys: "uniqueKeys digestStore"
    by (simp add: uniqueKeys_def digestStore_def unsentAlert_def)
  have fetched: "?ps \<in> set (fetchPendingSearches None digestStore)"
    by (simp add: fetched_iff selectedSearch_def digestStore_def dailySearch_def)
  have pending: "emailAlerts (channelPendingCounts ?ps) = [unsentAlert 11 1, unsentAlert 12 1]"
    by (simp add: channelPendingCounts_fields withPendingAlerts_def digestStore_def
        dailySearch_def unsentAlert_def)
  have due: "searchMode tenOClock ?ps = DueDigest"
    using pending pendingUniqueCount_zero [of ?ps]
    by (simp add: searchMode_DueDigest withPendingAlerts_def dailySearch_def
        normalizeCadence_def isDigestDue_def tenOClock_def)
  have sid: "searchId (search ?ps) = 1"
    by (simp add: withPendingAlerts_def dailySearch_def)
  have ids: "alertId (unsentAlert 11 1) = 11"
    by (simp add: unsentAlert_def)
  have time: "getTime tenOClock = 1000000000"
    by (simp add: tenOClock_def)
  note run = due_digest_advances_lastDigestAt [OF keys fetched due, of "\<lambda>a. False"]
  have last: "\<exists>s'. searchById ?store' 1 = Some s' \<and> lastDigestAt s' = Some 1000000000"
    using run [THEN conjunct1] by (simp add: sid time)
  have unsent: "\<exists>a'. alertById ?store' 11 = Some a' \<and> emailSentAt a' = None"
    using run [THEN conjunct2, THEN conjunct1] by (simp add: pending ids)
  have next_run: "attemptedDeliveries (snd (runAlertDeliveryJob None elevenOClock (\<lambda>a. True)
      ?store')) = 0"
    unfolding digestStore_def dailySearch_def unsentAlert_def tenOClock_def elevenOClock_def
    by code_simp
  show ?thesis
    using keys fetched due last unsent next_run by simp
qed

end
